theory Spec2Isabelle
  imports Main
begin

section \<open>The voice scenario (VOXIMPLANT\_SCENARIO.js)\<close>

text \<open>
  The scenario is a single-threaded JavaScript program driven by callbacks. Its
  global variables are the fields of the record \<open>engine\<close>; every handler is a
  function from engine to engine; every call into the platform (say, stopPlayback,
  sendMediaTo, HTTP requests, ...) is appended to the trace \<open>effects\<close>, in program
  order. Log lines and the plumbing of URLs, the call id and the dialled number
  do not influence the control flow and are left out.

  A JavaScript string is the list of its UTF-16 code units.
\<close>

type_synonym jsstring = "nat list"

datatype effect =
    Webhook string nat
  | CallPSTN
  | CreateASR
  | GetGreeting
  | SaveAIMessage jsstring
  | Say jsstring
  | StopPlayback
  | SendMediaTo
  | StopMediaTo
  | StopASR
  | Hangup
  | ProcessText jsstring "jsstring option"
  | Terminate

record engine =
  greetingMessage :: jsstring
  systemPrompt :: jsstring
  currentCall :: bool
  currentASR :: bool
  dialogTurnCount :: nat
  MAX_TURNS :: nat
  isProcessing :: bool
  isListening :: bool
  isSpeaking :: bool
  playbackListeners :: "bool list"
  pendingGreeting :: nat
  pendingProcess :: nat
  terminated :: bool
  effects :: "effect list"

text \<open>The string literals of the scenario (lines 10, 181, 205 and 321).\<close>

definition defaultGreeting :: jsstring where
  "defaultGreeting =
    [0x417, 0x434, 0x440, 0x430, 0x432, 0x441, 0x442, 0x432, 0x443, 0x439, 0x442, 0x435,
     0x21, 0x20, 0x42f, 0x20, 0x433, 0x43e, 0x43b, 0x43e, 0x441, 0x43e, 0x432, 0x43e,
     0x439, 0x20, 0x430, 0x441, 0x441, 0x438, 0x441, 0x442, 0x435, 0x43d, 0x442, 0x20,
     0x48, 0x41, 0x4c, 0x4f, 0x2e, 0x20, 0x427, 0x435, 0x43c, 0x20, 0x43c, 0x43e, 0x433,
     0x443, 0x20, 0x43f, 0x43e, 0x43c, 0x43e, 0x447, 0x44c, 0x3f]"

definition repromptLine :: jsstring where
  "repromptLine =
    [0x418, 0x437, 0x432, 0x438, 0x43d, 0x438, 0x442, 0x435, 0x2c, 0x20, 0x44f, 0x20,
     0x432, 0x430, 0x441, 0x20, 0x43d, 0x435, 0x20, 0x440, 0x430, 0x441, 0x441, 0x43b,
     0x44b, 0x448, 0x430, 0x43b, 0x2e, 0x20, 0x41f, 0x43e, 0x432, 0x442, 0x43e, 0x440,
     0x438, 0x442, 0x435, 0x2c, 0x20, 0x43f, 0x43e, 0x436, 0x430, 0x43b, 0x443, 0x439,
     0x441, 0x442, 0x430, 0x2e]"

definition closingLine :: jsstring where
  "closingLine =
    [0x421, 0x43f, 0x430, 0x441, 0x438, 0x431, 0x43e, 0x20, 0x437, 0x430, 0x20, 0x43e,
     0x431, 0x440, 0x430, 0x449, 0x435, 0x43d, 0x438, 0x435, 0x21, 0x20, 0x414, 0x43e,
     0x20, 0x441, 0x432, 0x438, 0x434, 0x430, 0x43d, 0x438, 0x44f, 0x2e]"

definition apologyLine :: jsstring where
  "apologyLine =
    [0x418, 0x437, 0x432, 0x438, 0x43d, 0x438, 0x442, 0x435, 0x2c, 0x20, 0x43f, 0x440,
     0x43e, 0x438, 0x437, 0x43e, 0x448, 0x43b, 0x430, 0x20, 0x43e, 0x448, 0x438, 0x431,
     0x43a, 0x430, 0x2e, 0x20, 0x41f, 0x43e, 0x436, 0x430, 0x43b, 0x443, 0x439, 0x441,
     0x442, 0x430, 0x2c, 0x20, 0x43f, 0x435, 0x440, 0x435, 0x437, 0x432, 0x43e, 0x43d,
     0x438, 0x442, 0x435, 0x20, 0x43f, 0x43e, 0x437, 0x436, 0x435, 0x2e]"

text \<open>The globals as the script initialises them (lines 7 to 20).\<close>

definition scenarioInit :: engine where
  "scenarioInit =
    \<lparr> greetingMessage = defaultGreeting, systemPrompt = [],
      currentCall = False, currentASR = False,
      dialogTurnCount = 0, MAX_TURNS = 12,
      isProcessing = False, isListening = False, isSpeaking = False,
      playbackListeners = [], pendingGreeting = 0, pendingProcess = 0,
      terminated = False, effects = [] \<rparr>"

definition emit :: "effect \<Rightarrow> engine \<Rightarrow> engine" where
  "emit x s = s\<lparr>effects := effects s @ [x]\<rparr>"

subsection \<open>Blank recognition text\<close>

text \<open>
  \<open>String.prototype.trim\<close> removes the code units of the ECMAScript productions
  WhiteSpace and LineTerminator from both ends.
\<close>

definition isWhiteSpace :: "nat \<Rightarrow> bool" where
  "isWhiteSpace c =
    (c = 0x9 \<or> c = 0xA \<or> c = 0xB \<or> c = 0xC \<or> c = 0xD \<or> c = 0x20 \<or> c = 0xA0
     \<or> c = 0x1680 \<or> (0x2000 \<le> c \<and> c \<le> 0x200A) \<or> c = 0x2028 \<or> c = 0x2029
     \<or> c = 0x202F \<or> c = 0x205F \<or> c = 0x3000 \<or> c = 0xFEFF)"

definition trim :: "jsstring \<Rightarrow> jsstring" where
  "trim t = rev (dropWhile isWhiteSpace (rev (dropWhile isWhiteSpace t)))"

text \<open>
  The test \<open>!e.text || !e.text.trim()\<close> of the result handler; \<open>None\<close> is a
  missing (undefined or null) text.
\<close>

definition noText :: "jsstring option \<Rightarrow> bool" where
  "noText text = (case text of None \<Rightarrow> True | Some t \<Rightarrow> t = [] \<or> trim t = [])"

subsection \<open>Listening and speaking\<close>

definition startListening :: "engine \<Rightarrow> engine" where
  "startListening s =
    (if \<not> currentASR s \<or> isProcessing s \<or> isListening s then s
     else emit SendMediaTo (s\<lparr>isListening := True\<rparr>))"

text \<open>
  \<open>speak\<close> registers a one-shot PlaybackFinished listener; the list
  \<open>playbackListeners\<close> holds the \<open>hangupAfter\<close> argument of every listener that
  is registered and has not fired.
\<close>

definition speak :: "jsstring \<Rightarrow> bool \<Rightarrow> engine \<Rightarrow> engine" where
  "speak text hangupAfter s =
    (let s1 = emit (Say text) (s\<lparr>isSpeaking := True\<rparr>);
         s2 = startListening s1
     in s2\<lparr>playbackListeners := playbackListeners s2 @ [hangupAfter]\<rparr>)"

text \<open>The body of the listener \<open>once\<close> (its own removal is done by the dispatcher below).\<close>

definition once :: "bool \<Rightarrow> engine \<Rightarrow> engine" where
  "once hangupAfter s =
    (let s1 = s\<lparr>isSpeaking := False, isProcessing := False\<rparr>
     in if hangupAfter then emit Hangup s1
        else if \<not> isListening s1 then startListening s1
        else s1)"

text \<open>
  A PlaybackFinished event runs every registered listener in registration order;
  each removes itself.
\<close>

definition onPlaybackFinished :: "engine \<Rightarrow> engine" where
  "onPlaybackFinished s =
    foldl (\<lambda>a h. once h a) (s\<lparr>playbackListeners := []\<rparr>) (playbackListeners s)"

definition handleError :: "engine \<Rightarrow> engine" where
  "handleError s = speak apologyLine True s"

subsection \<open>Recognition\<close>

definition onCaptureStarted :: "engine \<Rightarrow> engine" where
  "onCaptureStarted s =
    (if isSpeaking s
     then (emit StopPlayback s)\<lparr>isSpeaking := False, isProcessing := False\<rparr>
     else s)"

definition processTextWithAI :: "jsstring \<Rightarrow> engine \<Rightarrow> engine" where
  "processTextWithAI userText s =
    (emit (ProcessText userText (if systemPrompt s = [] then None else Some (systemPrompt s))) s)
      \<lparr>pendingProcess := Suc (pendingProcess s)\<rparr>"

definition onRecognitionResult :: "jsstring \<Rightarrow> engine \<Rightarrow> engine" where
  "onRecognitionResult userText s =
    (let s1 = s\<lparr>isProcessing := True, dialogTurnCount := dialogTurnCount s + 1\<rparr>
     in if dialogTurnCount s1 > MAX_TURNS s1 then speak closingLine True s1
        else processTextWithAI userText s1)"

definition onASRResult :: "jsstring option \<Rightarrow> engine \<Rightarrow> engine" where
  "onASRResult text s =
    (if isProcessing s then s
     else let s1 = (emit StopMediaTo s)\<lparr>isListening := False\<rparr>
          in case text of
               None \<Rightarrow> speak repromptLine False s1
             | Some t \<Rightarrow> if noText text then speak repromptLine False s1
                         else onRecognitionResult t s1)"

subsection \<open>Backend callbacks and call events\<close>

text \<open>
  The custom data of the session as far as the dialog reads it: the optional
  fields \<open>greeting\<close> and \<open>prompt\<close>. A JavaScript string is truthy when it is
  present and not empty.
\<close>

record customData =
  greeting :: "jsstring option"
  prompt :: "jsstring option"

definition useCustom :: "customData \<Rightarrow> engine \<Rightarrow> engine" where
  "useCustom d s =
    (let s1 = (case greeting d of
                 Some g \<Rightarrow> if g \<noteq> [] then s\<lparr>greetingMessage := g\<rparr> else s
               | None \<Rightarrow> s)
     in case prompt d of
          Some p \<Rightarrow> if p \<noteq> [] then s1\<lparr>systemPrompt := p\<rparr> else s1
        | None \<Rightarrow> s1)"

text \<open>
  The body of a \<open>process_text\<close> response: \<open>JSON.parse\<close> throws, or the parsed
  object has no \<open>ai_text\<close> (reading its length throws), or it carries the reply.
  A request that is rejected (network error, timeout) is \<open>RequestError\<close>.
\<close>

datatype body = Unparsable | NoAiText | AiText jsstring

datatype response = HttpResponse int body | RequestError

datatype event =
    Started "customData option"
  | CallConnected
  | GreetingResponse int "customData option"
  | CaptureStarted
  | ASRResult "jsstring option"
  | PlaybackFinished
  | BackendResponse response
  | CallDisconnected
  | CallFailed

text \<open>The handler of AppEvents.Started (lines 24 to 81); \<open>None\<close> is custom data that is
  missing or does not parse.\<close>

definition onStarted :: "nat \<Rightarrow> customData option \<Rightarrow> engine \<Rightarrow> engine" where
  "onStarted now cd s =
    (let s1 = (case cd of None \<Rightarrow> s | Some d \<Rightarrow> useCustom d s);
         s2 = emit CallPSTN (emit (Webhook ''ScenarioStarted'' now) s1)
     in s2\<lparr>currentCall := True\<rparr>)"

definition initASR :: "engine \<Rightarrow> engine" where
  "initASR s = (emit CreateASR s)\<lparr>currentASR := True\<rparr>"

definition onCallConnected :: "nat \<Rightarrow> engine \<Rightarrow> engine" where
  "onCallConnected now s =
    (let s1 = initASR (emit (Webhook ''CallConnected'' now) s)
     in (emit GetGreeting s1)\<lparr>pendingGreeting := Suc (pendingGreeting s1)\<rparr>)"

text \<open>The callback of the \<open>get_greeting\<close> request (lines 96 to 125); \<open>None\<close> is a
  body whose parsing throws.\<close>

definition onGreetingResponse :: "int \<Rightarrow> customData option \<Rightarrow> engine \<Rightarrow> engine" where
  "onGreetingResponse code d s =
    (let s1 = (if code = 200 then (case d of None \<Rightarrow> s | Some x \<Rightarrow> useCustom x s) else s)
     in speak (greetingMessage s1) False (emit (SaveAIMessage (greetingMessage s1)) s1))"

text \<open>The continuations of the \<open>process_text\<close> request (lines 255 to 282).\<close>

definition onBackendResponse :: "response \<Rightarrow> engine \<Rightarrow> engine" where
  "onBackendResponse r s =
    (case r of
       RequestError \<Rightarrow> handleError s
     | HttpResponse code b \<Rightarrow>
         if code \<noteq> 200 then handleError s
         else (case b of AiText t \<Rightarrow> speak t False s | _ \<Rightarrow> handleError s))"

definition terminate :: "engine \<Rightarrow> engine" where
  "terminate s = (emit Terminate s)\<lparr>terminated := True\<rparr>"

definition onCallDisconnected :: "nat \<Rightarrow> engine \<Rightarrow> engine" where
  "onCallDisconnected now s =
    (let s1 = (if currentASR s then emit StopASR (emit StopMediaTo s) else s)
     in terminate (emit (Webhook ''CallDisconnected'' now) s1))"

definition onCallFailed :: "nat \<Rightarrow> engine \<Rightarrow> engine" where
  "onCallFailed now s = terminate (emit (Webhook ''CallFailed'' now) s)"

subsection \<open>Event delivery\<close>

text \<open>
  An event is delivered together with the value \<open>Date.now()\<close> has at that moment.
  A handler runs only if it is registered: the call handlers after Started, the
  recognition handlers after \<open>initASR\<close>, an HTTP continuation once per request in
  flight, nothing after \<open>VoxEngine.terminate()\<close>. Apart from that the environment
  is free: any event may come at any time, so the states reached by \<open>run\<close> include
  every state the deployed scenario can reach.
\<close>

fun step :: "nat \<times> event \<Rightarrow> engine \<Rightarrow> engine" where
  "step (now, e) s =
    (if terminated s then s
     else case e of
       Started cd \<Rightarrow> onStarted now cd s
     | CallConnected \<Rightarrow> if currentCall s then onCallConnected now s else s
     | GreetingResponse code d \<Rightarrow>
         if pendingGreeting s = 0 then s
         else onGreetingResponse code d (s\<lparr>pendingGreeting := pendingGreeting s - 1\<rparr>)
     | CaptureStarted \<Rightarrow> if currentASR s then onCaptureStarted s else s
     | ASRResult text \<Rightarrow> if currentASR s then onASRResult text s else s
     | PlaybackFinished \<Rightarrow> onPlaybackFinished s
     | BackendResponse r \<Rightarrow>
         if pendingProcess s = 0 then s
         else onBackendResponse r (s\<lparr>pendingProcess := pendingProcess s - 1\<rparr>)
     | CallDisconnected \<Rightarrow> if currentCall s then onCallDisconnected now s else s
     | CallFailed \<Rightarrow> if currentCall s then onCallFailed now s else s)"

definition run :: "(nat \<times> event) list \<Rightarrow> engine \<Rightarrow> engine" where
  "run es s = foldl (\<lambda>a e. step e a) s es"

subsection \<open>Observations on the trace\<close>

text \<open>What a handler appended to the trace.\<close>

definition newEffects :: "engine \<Rightarrow> engine \<Rightarrow> effect list" where
  "newEffects s s' = drop (length (effects s)) (effects s')"

text \<open>
  The number of media streams being sent to the recogniser after a trace:
  \<open>sendMediaTo\<close> opens one, \<open>stopMediaTo\<close> closes what is open.
\<close>

fun capturesFrom :: "nat \<Rightarrow> effect list \<Rightarrow> nat" where
  "capturesFrom n [] = n"
| "capturesFrom n (SendMediaTo # xs) = capturesFrom (Suc n) xs"
| "capturesFrom n (StopMediaTo # xs) = capturesFrom 0 xs"
| "capturesFrom n (x # xs) = capturesFrom n xs"

definition activeCaptures :: "engine \<Rightarrow> nat" where
  "activeCaptures s = capturesFrom 0 (effects s)"

text \<open>
  A user utterance leaves the scenario only as the \<open>user_text\<close> of a
  \<open>process_text\<close> request, where the backend records it as a user turn and
  generates the reply.
\<close>

fun isProcessText :: "effect \<Rightarrow> bool" where
  "isProcessText (ProcessText t p) = True"
| "isProcessText x = False"

definition userTurns :: "engine \<Rightarrow> nat" where
  "userTurns s = length (filter isProcessText (effects s))"

subsection \<open>Properties of states and runs\<close>

fun isASRResult :: "event \<Rightarrow> bool" where
  "isASRResult (ASRResult text) = True"
| "isASRResult e = False"

fun endsCall :: "event \<Rightarrow> bool" where
  "endsCall CallDisconnected = True"
| "endsCall CallFailed = True"
| "endsCall e = False"

text \<open>A recognition result that carries words; every other event does not.\<close>

fun carriesWords :: "event \<Rightarrow> bool" where
  "carriesWords (ASRResult text) = (\<not> noText text)"
| "carriesWords e = False"

text \<open>The flag \<open>isListening\<close> accounts for the media sent to the recogniser.\<close>

definition captureInv :: "engine \<Rightarrow> bool" where
  "captureInv s = (if isListening s then activeCaptures s \<le> 1 else activeCaptures s = 0)"

definition turnInv :: "engine \<Rightarrow> bool" where
  "turnInv s = (userTurns s \<le> dialogTurnCount s \<and> userTurns s \<le> MAX_TURNS s)"

text \<open>
  The duration limit in the words of the specification, for a run whose call was
  answered at \<open>t0\<close> (milliseconds): once \<open>maxMs\<close> have elapsed, no event makes
  the engine send a generation request.
\<close>

fun durationLimitRespected :: "nat \<Rightarrow> nat \<Rightarrow> (nat \<times> event) list \<Rightarrow> engine \<Rightarrow> bool" where
  "durationLimitRespected maxMs t0 [] s = True"
| "durationLimitRespected maxMs t0 ((t, e) # es) s =
    ((t0 + maxMs \<le> t \<longrightarrow> \<not> list_ex isProcessText (newEffects s (step (t, e) s)))
     \<and> durationLimitRespected maxMs t0 es (step (t, e) s))"

text \<open>
  The transient-error rule in the words of the specification, for one failed
  response: the request is sent again and no apology is spoken.
\<close>

definition retriedQuietly :: "engine \<Rightarrow> engine \<Rightarrow> bool" where
  "retriedQuietly s s' =
    (list_ex isProcessText (newEffects s s') \<and> Say apologyLine \<notin> set (newEffects s s'))"

text \<open>
  A call that was answered, greeted and heard out: the user has spoken once
  (the two code units of "da") and the reply of the backend is awaited.
\<close>

definition awaitingReply :: engine where
  "awaitingReply =
    run [(0, Started None), (1000, CallConnected), (1500, GreetingResponse 200 None),
         (6000, PlaybackFinished), (9000, ASRResult (Some [0x434, 0x430]))] scenarioInit"

text \<open>A call that was answered and whose greeting is being played.\<close>

definition greetingPlaying :: engine where
  "greetingPlaying =
    run [(0, Started None), (1000, CallConnected), (1500, GreetingResponse 200 None)] scenarioInit"

text \<open>
  A call with a turn limit of one in which the user has had that turn: the reply
  of the backend has been played to its end and the engine listens again.
\<close>

definition afterOnlyTurn :: engine where
  "afterOnlyTurn =
    run [(0, Started None), (1000, CallConnected), (1500, GreetingResponse 200 None),
         (6000, PlaybackFinished), (9000, ASRResult (Some [0x434, 0x430])),
         (9800, BackendResponse (HttpResponse 200 (AiText [0x43e, 0x43a]))),
         (12000, PlaybackFinished)] (scenarioInit\<lparr>MAX_TURNS := 1\<rparr>)"

text \<open>
  The responses after which the continuation calls \<open>handleError\<close>: a rejected
  request, a status other than 200 (a timeout or a rate limit among them), or a
  body from which no \<open>ai_text\<close> can be read.
\<close>

fun failedResponse :: "response \<Rightarrow> bool" where
  "failedResponse RequestError = True"
| "failedResponse (HttpResponse code (AiText t)) = (code \<noteq> 200)"
| "failedResponse (HttpResponse code b) = True"

section \<open>The bridge server (voximplant-bridge/index.js)\<close>

text \<open>
  The registry \<open>activeCalls\<close> maps a call id to the references kept for it: the
  SDK call and, once the call is connected, the socket to the backend. The
  console and the calls into the SDK and the socket are traces.
\<close>

datatype websocket = WebSocket (closeThrows: bool)

record callData =
  call :: bool
  ws :: "websocket option"

datatype logline =
    LogConnecting string
  | LogConnectionError string
  | LogConnectRequest string
  | LogConnectError
  | LogVoxDisconnected string
  | LogVoxFailed string
  | LogBackendConnecting string
  | LogBackendClosed string
  | LogCleanup string
  | LogWsCloseError

datatype sdk_effect = SdkCall string | CallHangup string | WsOpen string | WsClose string

datatype answer =
    ErrCallIdRequired
  | ErrConnect
  | Connecting string
  | Disconnected string
  | ErrCallNotFound

datatype reply = Reply nat answer

record bridge =
  activeCalls :: "string \<rightharpoonup> callData"
  console :: "logline list"
  sdkCalls :: "sdk_effect list"

definition bridgeInit :: bridge where
  "bridgeInit = \<lparr> activeCalls = Map.empty, console = [], sdkCalls = [] \<rparr>"

definition logLine :: "logline \<Rightarrow> bridge \<Rightarrow> bridge" where
  "logLine l b = b\<lparr>console := console b @ [l]\<rparr>"

definition sdkDo :: "sdk_effect \<Rightarrow> bridge \<Rightarrow> bridge" where
  "sdkDo x b = b\<lparr>sdkCalls := sdkCalls b @ [x]\<rparr>"

definition cleanup :: "string \<Rightarrow> bridge \<Rightarrow> bridge" where
  "cleanup callId b =
    (let b1 = logLine (LogCleanup callId) b
     in case activeCalls b1 callId of
          None \<Rightarrow> b1
        | Some d \<Rightarrow>
            (let b2 = (case ws d of
                         None \<Rightarrow> b1
                       | Some w \<Rightarrow> if closeThrows w then logLine LogWsCloseError b1
                                   else sdkDo (WsClose callId) b1)
             in b2\<lparr>activeCalls := (activeCalls b2)(callId := None)\<rparr>))"

text \<open>\<open>sdk.call\<close> may throw; \<open>throws\<close> says whether it does.\<close>

definition connectToCall :: "bool \<Rightarrow> string \<Rightarrow> bridge \<Rightarrow> bridge \<times> bool" where
  "connectToCall throws callId b =
    (let b1 = logLine (LogConnecting callId) b
     in if throws then (logLine (LogConnectionError callId) b1, False)
        else let b2 = sdkDo (SdkCall callId) b1;
                 d = (case activeCalls b2 callId of
                        None \<Rightarrow> \<lparr> call = False, ws = None \<rparr>
                      | Some x \<Rightarrow> x)
             in (b2\<lparr>activeCalls := (activeCalls b2)(callId \<mapsto> d\<lparr>call := True\<rparr>)\<rparr>, True))"

text \<open>A missing or empty \<open>call_id\<close> is falsy.\<close>

definition connect :: "bool \<Rightarrow> string option \<Rightarrow> bridge \<Rightarrow> bridge \<times> reply" where
  "connect throws call_id b =
    (case call_id of
       None \<Rightarrow> (b, Reply 400 ErrCallIdRequired)
     | Some c \<Rightarrow>
         if c = [] then (b, Reply 400 ErrCallIdRequired)
         else (case connectToCall throws c (logLine (LogConnectRequest c) b) of
                 (b1, ok) \<Rightarrow> if ok then (b1, Reply 200 (Connecting c))
                             else (logLine LogConnectError b1, Reply 500 ErrConnect)))"

definition connectToBackend :: "bool \<Rightarrow> string \<Rightarrow> bridge \<Rightarrow> bridge" where
  "connectToBackend throwsOnClose callId b =
    (let b1 = sdkDo (WsOpen callId) (logLine (LogBackendConnecting callId) b)
     in case activeCalls b1 callId of
          None \<Rightarrow> b1
        | Some d \<Rightarrow>
            b1\<lparr>activeCalls := (activeCalls b1)(callId \<mapsto> d\<lparr>ws := Some (WebSocket throwsOnClose)\<rparr>)\<rparr>)"

definition disconnect :: "string option \<Rightarrow> bridge \<Rightarrow> bridge \<times> reply" where
  "disconnect call_id b =
    (case call_id of
       None \<Rightarrow> (b, Reply 400 ErrCallIdRequired)
     | Some c \<Rightarrow>
         if c = [] then (b, Reply 400 ErrCallIdRequired)
         else (case activeCalls b c of
                 None \<Rightarrow> (b, Reply 404 ErrCallNotFound)
               | Some d \<Rightarrow>
                   if call d then (cleanup c (sdkDo (CallHangup c) b), Reply 200 (Disconnected c))
                   else (b, Reply 404 ErrCallNotFound)))"

text \<open>The listeners of the SDK call and of the backend socket.\<close>

definition onVoxDisconnected :: "string \<Rightarrow> bridge \<Rightarrow> bridge" where
  "onVoxDisconnected callId b = cleanup callId (logLine (LogVoxDisconnected callId) b)"

definition onVoxFailed :: "string \<Rightarrow> bridge \<Rightarrow> bridge" where
  "onVoxFailed callId b = cleanup callId (logLine (LogVoxFailed callId) b)"

definition onWsClose :: "string \<Rightarrow> bridge \<Rightarrow> bridge" where
  "onWsClose callId b =
    cleanup callId (sdkDo (CallHangup callId) (logLine (LogBackendClosed callId) b))"

text \<open>
  The rule for an unknown call id in the words of the specification: the event is
  logged, and its sender is not told of a failure.
\<close>

definition loggedAndIgnored :: "bridge \<Rightarrow> bridge \<times> reply \<Rightarrow> bool" where
  "loggedAndIgnored b r =
    (length (console b) < length (console (fst r)) \<and> (case snd r of Reply code a \<Rightarrow> code < 400))"

section \<open>Call creation (core/orchestrator.py as planned in VOXIMPLANT\_SETUP.md)\<close>

text \<open>
  The phone check is the validator of Checkpoint 9.1,
  \<^verbatim>\<open>re.match(r'^(\+7|8)\d{10}$', v)\<close>. A phone number is a \<open>string\<close>, one \<open>char\<close>
  per code point below 256, where \<^verbatim>\<open>\d\<close> matches the ten ASCII digits only. In a
  Python pattern \<^verbatim>\<open>$\<close> matches at the end of the text and also before a line feed
  that ends it.
\<close>

definition isDigit :: "char \<Rightarrow> bool" where
  "isDigit c = (c \<in> set ''0123456789'')"

definition tenDigitsToEnd :: "string \<Rightarrow> bool" where
  "tenDigitsToEnd r =
    (10 \<le> length r \<and> list_all isDigit (take 10 r) \<and> (drop 10 r = [] \<or> drop 10 r = [CHR 0x0A]))"

fun phonePattern :: "string \<Rightarrow> bool" where
  "phonePattern (c # d # r) =
    (if c = CHR ''+'' \<and> d = CHR ''7'' then tenDigitsToEnd r
     else if c = CHR ''8'' then tenDigitsToEnd (d # r)
     else False)"
| "phonePattern r = False"

datatype call_error = InvalidArgument | NotFound

definition validate_phone :: "string \<Rightarrow> call_error + string" where
  "validate_phone v = (if phonePattern v then Inr v else Inl InvalidArgument)"

text \<open>
  The numbers the pattern is written for: \<open>+7\<close> or \<open>8\<close>, then exactly ten digits.
\<close>

definition ruPhone :: "string \<Rightarrow> bool" where
  "ruPhone v =
    ((take 2 v = ''+7'' \<and> length v = 12 \<and> list_all isDigit (drop 2 v))
     \<or> (take 1 v = ''8'' \<and> length v = 11 \<and> list_all isDigit (drop 1 v)))"

text \<open>
  A number in the international format E.164, as the specification asks for: a plus
  sign, then at most fifteen digits, the first of them not zero.
\<close>

fun e164_like :: "string \<Rightarrow> bool" where
  "e164_like (c # d # r) =
    (c = CHR ''+'' \<and> d \<noteq> CHR ''0'' \<and> length (d # r) \<le> 15 \<and> list_all isDigit (d # r))"
| "e164_like r = False"

text \<open>Modelled from the spec: the call session and the registry of the Call Session
  Manager (core/orchestrator.py is not among the sources). A session has an
  identifier, the destination number and a status, which is one of Created,
  Dialing, InProgress, NoAnswer, Completed and Failed; the registry holds the
  active sessions keyed by identifier. Identifiers are allocated from a counter.\<close>

datatype status = Created | Dialing | InProgress | NoAnswer | Completed | Failed

record callSession =
  sessionId :: nat
  phoneNumber :: string
  status :: status

record manager =
  registry :: "nat \<rightharpoonup> callSession"
  nextId :: nat

definition managerInit :: manager where
  "managerInit = \<lparr> registry = Map.empty, nextId = 0 \<rparr>"

text \<open>Modelled from the spec: \<open>createCall\<close> (the method \<open>create_call\<close> of
  core/orchestrator.py) is not among the sources; only its plan in VOXIMPLANT\_SETUP.md
  and its callers are. As specified it validates the phone format (with the
  validator above), allocates an id, inserts a new session in state Created into
  the registry keyed by id and returns it, and fails with InvalidArgument on a
  malformed number.\<close>

definition createCall :: "string \<Rightarrow> manager \<Rightarrow> call_error + (callSession \<times> manager)" where
  "createCall phone m =
    (case validate_phone phone of
       Inl e \<Rightarrow> Inl e
     | Inr v \<Rightarrow>
         (let c = \<lparr> sessionId = nextId m, phoneNumber = v, status = Created \<rparr>
          in Inr (c, m\<lparr>registry := (registry m)(nextId m \<mapsto> c), nextId := Suc (nextId m)\<rparr>)))"

text \<open>No session has an identifier the counter has yet to give out.\<close>

definition managerInv :: "manager \<Rightarrow> bool" where
  "managerInv m = (\<forall>k \<in> dom (registry m). k < nextId m)"

section \<open>Verification of the scenario\<close>

subsection \<open>What each handler does to each global\<close>

lemma emit_fields [simp]:
  "effects (emit x s) = effects s @ [x]"
  "greetingMessage (emit x s) = greetingMessage s"
  "systemPrompt (emit x s) = systemPrompt s"
  "currentCall (emit x s) = currentCall s"
  "currentASR (emit x s) = currentASR s"
  "dialogTurnCount (emit x s) = dialogTurnCount s"
  "MAX_TURNS (emit x s) = MAX_TURNS s"
  "isProcessing (emit x s) = isProcessing s"
  "isListening (emit x s) = isListening s"
  "isSpeaking (emit x s) = isSpeaking s"
  "playbackListeners (emit x s) = playbackListeners s"
  "pendingGreeting (emit x s) = pendingGreeting s"
  "pendingProcess (emit x s) = pendingProcess s"
  "terminated (emit x s) = terminated s"
  by (simp_all add: emit_def)

lemma startListening_fields [simp]:
  "effects (startListening s) =
     effects s @ (if currentASR s \<and> \<not> isProcessing s \<and> \<not> isListening s then [SendMediaTo] else [])"
  "isListening (startListening s) = (isListening s \<or> (currentASR s \<and> \<not> isProcessing s))"
  "greetingMessage (startListening s) = greetingMessage s"
  "systemPrompt (startListening s) = systemPrompt s"
  "currentCall (startListening s) = currentCall s"
  "currentASR (startListening s) = currentASR s"
  "dialogTurnCount (startListening s) = dialogTurnCount s"
  "MAX_TURNS (startListening s) = MAX_TURNS s"
  "isProcessing (startListening s) = isProcessing s"
  "isSpeaking (startListening s) = isSpeaking s"
  "playbackListeners (startListening s) = playbackListeners s"
  "pendingGreeting (startListening s) = pendingGreeting s"
  "pendingProcess (startListening s) = pendingProcess s"
  "terminated (startListening s) = terminated s"
  by (auto simp: startListening_def)

lemma speak_fields [simp]:
  "effects (speak t h s) =
     effects s @ Say t # (if currentASR s \<and> \<not> isProcessing s \<and> \<not> isListening s then [SendMediaTo] else [])"
  "isListening (speak t h s) = (isListening s \<or> (currentASR s \<and> \<not> isProcessing s))"
  "isSpeaking (speak t h s) = True"
  "playbackListeners (speak t h s) = playbackListeners s @ [h]"
  "greetingMessage (speak t h s) = greetingMessage s"
  "systemPrompt (speak t h s) = systemPrompt s"
  "currentCall (speak t h s) = currentCall s"
  "currentASR (speak t h s) = currentASR s"
  "dialogTurnCount (speak t h s) = dialogTurnCount s"
  "MAX_TURNS (speak t h s) = MAX_TURNS s"
  "isProcessing (speak t h s) = isProcessing s"
  "pendingGreeting (speak t h s) = pendingGreeting s"
  "pendingProcess (speak t h s) = pendingProcess s"
  "terminated (speak t h s) = terminated s"
  by (simp_all add: speak_def Let_def)

lemma once_fields [simp]:
  "effects (once h s) =
     effects s @ (if h then [Hangup] else if currentASR s \<and> \<not> isListening s then [SendMediaTo] else [])"
  "isListening (once h s) = (isListening s \<or> (\<not> h \<and> currentASR s))"
  "isSpeaking (once h s) = False"
  "isProcessing (once h s) = False"
  "playbackListeners (once h s) = playbackListeners s"
  "greetingMessage (once h s) = greetingMessage s"
  "systemPrompt (once h s) = systemPrompt s"
  "currentCall (once h s) = currentCall s"
  "currentASR (once h s) = currentASR s"
  "dialogTurnCount (once h s) = dialogTurnCount s"
  "MAX_TURNS (once h s) = MAX_TURNS s"
  "pendingGreeting (once h s) = pendingGreeting s"
  "pendingProcess (once h s) = pendingProcess s"
  "terminated (once h s) = terminated s"
  by (auto simp: once_def Let_def)

lemma listeners_fields [simp]:
  "playbackListeners (foldl (\<lambda>a h. once h a) s hs) = playbackListeners s"
  "greetingMessage (foldl (\<lambda>a h. once h a) s hs) = greetingMessage s"
  "systemPrompt (foldl (\<lambda>a h. once h a) s hs) = systemPrompt s"
  "currentCall (foldl (\<lambda>a h. once h a) s hs) = currentCall s"
  "currentASR (foldl (\<lambda>a h. once h a) s hs) = currentASR s"
  "dialogTurnCount (foldl (\<lambda>a h. once h a) s hs) = dialogTurnCount s"
  "MAX_TURNS (foldl (\<lambda>a h. once h a) s hs) = MAX_TURNS s"
  "pendingGreeting (foldl (\<lambda>a h. once h a) s hs) = pendingGreeting s"
  "pendingProcess (foldl (\<lambda>a h. once h a) s hs) = pendingProcess s"
  "terminated (foldl (\<lambda>a h. once h a) s hs) = terminated s"
  "isProcessing (foldl (\<lambda>a h. once h a) s hs) = (hs = [] \<and> isProcessing s)"
  "isSpeaking (foldl (\<lambda>a h. once h a) s hs) = (hs = [] \<and> isSpeaking s)"
  by (induction hs arbitrary: s; simp)+

lemma onPlaybackFinished_fields [simp]:
  "playbackListeners (onPlaybackFinished s) = []"
  "greetingMessage (onPlaybackFinished s) = greetingMessage s"
  "systemPrompt (onPlaybackFinished s) = systemPrompt s"
  "currentCall (onPlaybackFinished s) = currentCall s"
  "currentASR (onPlaybackFinished s) = currentASR s"
  "dialogTurnCount (onPlaybackFinished s) = dialogTurnCount s"
  "MAX_TURNS (onPlaybackFinished s) = MAX_TURNS s"
  "pendingGreeting (onPlaybackFinished s) = pendingGreeting s"
  "pendingProcess (onPlaybackFinished s) = pendingProcess s"
  "terminated (onPlaybackFinished s) = terminated s"
  "isProcessing (onPlaybackFinished s) = (playbackListeners s = [] \<and> isProcessing s)"
  "isSpeaking (onPlaybackFinished s) = (playbackListeners s = [] \<and> isSpeaking s)"
  by (simp_all add: onPlaybackFinished_def)

lemma useCustom_fields [simp]:
  "effects (useCustom d s) = effects s"
  "currentCall (useCustom d s) = currentCall s"
  "currentASR (useCustom d s) = currentASR s"
  "dialogTurnCount (useCustom d s) = dialogTurnCount s"
  "MAX_TURNS (useCustom d s) = MAX_TURNS s"
  "isProcessing (useCustom d s) = isProcessing s"
  "isListening (useCustom d s) = isListening s"
  "isSpeaking (useCustom d s) = isSpeaking s"
  "playbackListeners (useCustom d s) = playbackListeners s"
  "pendingGreeting (useCustom d s) = pendingGreeting s"
  "pendingProcess (useCustom d s) = pendingProcess s"
  "terminated (useCustom d s) = terminated s"
  by (simp_all add: useCustom_def Let_def split: option.splits)

lemma onCaptureStarted_fields [simp]:
  "effects (onCaptureStarted s) = effects s @ (if isSpeaking s then [StopPlayback] else [])"
  "isSpeaking (onCaptureStarted s) = False"
  "isProcessing (onCaptureStarted s) = (\<not> isSpeaking s \<and> isProcessing s)"
  "isListening (onCaptureStarted s) = isListening s"
  "playbackListeners (onCaptureStarted s) = playbackListeners s"
  "currentCall (onCaptureStarted s) = currentCall s"
  "currentASR (onCaptureStarted s) = currentASR s"
  "dialogTurnCount (onCaptureStarted s) = dialogTurnCount s"
  "MAX_TURNS (onCaptureStarted s) = MAX_TURNS s"
  "pendingGreeting (onCaptureStarted s) = pendingGreeting s"
  "pendingProcess (onCaptureStarted s) = pendingProcess s"
  "terminated (onCaptureStarted s) = terminated s"
  by (simp_all add: onCaptureStarted_def)

lemma onBackendResponse_fields [simp]:
  "isProcessing (onBackendResponse r s) = isProcessing s"
  "isSpeaking (onBackendResponse r s) = True"
  "currentCall (onBackendResponse r s) = currentCall s"
  "currentASR (onBackendResponse r s) = currentASR s"
  "dialogTurnCount (onBackendResponse r s) = dialogTurnCount s"
  "MAX_TURNS (onBackendResponse r s) = MAX_TURNS s"
  "pendingGreeting (onBackendResponse r s) = pendingGreeting s"
  "pendingProcess (onBackendResponse r s) = pendingProcess s"
  "terminated (onBackendResponse r s) = terminated s"
  by (simp_all add: onBackendResponse_def handleError_def split: response.splits body.splits)

lemma onGreetingResponse_fields [simp]:
  "isProcessing (onGreetingResponse c d s) = isProcessing s"
  "isSpeaking (onGreetingResponse c d s) = True"
  "currentCall (onGreetingResponse c d s) = currentCall s"
  "currentASR (onGreetingResponse c d s) = currentASR s"
  "dialogTurnCount (onGreetingResponse c d s) = dialogTurnCount s"
  "MAX_TURNS (onGreetingResponse c d s) = MAX_TURNS s"
  "pendingGreeting (onGreetingResponse c d s) = pendingGreeting s"
  "pendingProcess (onGreetingResponse c d s) = pendingProcess s"
  "terminated (onGreetingResponse c d s) = terminated s"
  by (simp_all add: onGreetingResponse_def Let_def split: option.splits)

lemma onStarted_fields [simp]:
  "isProcessing (onStarted now cd s) = isProcessing s"
  "isSpeaking (onStarted now cd s) = isSpeaking s"
  "isListening (onStarted now cd s) = isListening s"
  "currentCall (onStarted now cd s) = True"
  "currentASR (onStarted now cd s) = currentASR s"
  "dialogTurnCount (onStarted now cd s) = dialogTurnCount s"
  "MAX_TURNS (onStarted now cd s) = MAX_TURNS s"
  "playbackListeners (onStarted now cd s) = playbackListeners s"
  "pendingGreeting (onStarted now cd s) = pendingGreeting s"
  "pendingProcess (onStarted now cd s) = pendingProcess s"
  "terminated (onStarted now cd s) = terminated s"
  "effects (onStarted now cd s) = effects s @ [Webhook ''ScenarioStarted'' now, CallPSTN]"
  by (simp_all add: onStarted_def Let_def split: option.splits)

lemma onCallConnected_fields [simp]:
  "isProcessing (onCallConnected now s) = isProcessing s"
  "isSpeaking (onCallConnected now s) = isSpeaking s"
  "isListening (onCallConnected now s) = isListening s"
  "currentCall (onCallConnected now s) = currentCall s"
  "currentASR (onCallConnected now s) = True"
  "dialogTurnCount (onCallConnected now s) = dialogTurnCount s"
  "MAX_TURNS (onCallConnected now s) = MAX_TURNS s"
  "playbackListeners (onCallConnected now s) = playbackListeners s"
  "pendingGreeting (onCallConnected now s) = Suc (pendingGreeting s)"
  "pendingProcess (onCallConnected now s) = pendingProcess s"
  "terminated (onCallConnected now s) = terminated s"
  "effects (onCallConnected now s) = effects s @ [Webhook ''CallConnected'' now, CreateASR, GetGreeting]"
  by (simp_all add: onCallConnected_def initASR_def Let_def)

lemma onCallDisconnected_fields [simp]:
  "isProcessing (onCallDisconnected now s) = isProcessing s"
  "currentASR (onCallDisconnected now s) = currentASR s"
  "dialogTurnCount (onCallDisconnected now s) = dialogTurnCount s"
  "MAX_TURNS (onCallDisconnected now s) = MAX_TURNS s"
  "terminated (onCallDisconnected now s) = True"
  by (simp_all add: onCallDisconnected_def terminate_def Let_def)

lemma onCallFailed_fields [simp]:
  "isProcessing (onCallFailed now s) = isProcessing s"
  "currentASR (onCallFailed now s) = currentASR s"
  "dialogTurnCount (onCallFailed now s) = dialogTurnCount s"
  "MAX_TURNS (onCallFailed now s) = MAX_TURNS s"
  "terminated (onCallFailed now s) = True"
  "effects (onCallFailed now s) = effects s @ [Webhook ''CallFailed'' now, Terminate]"
  by (simp_all add: onCallFailed_def terminate_def)

lemma onRecognitionResult_fields [simp]:
  "isProcessing (onRecognitionResult t s) = True"
  "dialogTurnCount (onRecognitionResult t s) = Suc (dialogTurnCount s)"
  "MAX_TURNS (onRecognitionResult t s) = MAX_TURNS s"
  "currentASR (onRecognitionResult t s) = currentASR s"
  "currentCall (onRecognitionResult t s) = currentCall s"
  "isListening (onRecognitionResult t s) = isListening s"
  "terminated (onRecognitionResult t s) = terminated s"
  "effects (onRecognitionResult t s) =
     effects s @ [if MAX_TURNS s \<le> dialogTurnCount s then Say closingLine
                  else ProcessText t (if systemPrompt s = [] then None else Some (systemPrompt s))]"
  "playbackListeners (onRecognitionResult t s) =
     playbackListeners s @ (if MAX_TURNS s \<le> dialogTurnCount s then [True] else [])"
  by (auto simp: onRecognitionResult_def processTextWithAI_def Let_def)

lemma onASRResult_fields [simp]:
  "MAX_TURNS (onASRResult x s) = MAX_TURNS s"
  "currentASR (onASRResult x s) = currentASR s"
  "currentCall (onASRResult x s) = currentCall s"
  "terminated (onASRResult x s) = terminated s"
  "dialogTurnCount (onASRResult x s) =
     (if \<not> isProcessing s \<and> \<not> noText x then Suc (dialogTurnCount s) else dialogTurnCount s)"
  by (auto simp: onASRResult_def Let_def noText_def split: option.splits)

subsection \<open>The result handler\<close>

lemma onASRResult_busy: "isProcessing s \<Longrightarrow> onASRResult x s = s"
  by (simp add: onASRResult_def)

lemma onASRResult_blank:
  assumes "\<not> isProcessing s" "noText x"
  shows "onASRResult x s = speak repromptLine False ((emit StopMediaTo s)\<lparr>isListening := False\<rparr>)"
  using assms by (cases x) (simp_all add: onASRResult_def Let_def)

lemma onASRResult_words:
  assumes "\<not> isProcessing s" "\<not> noText (Some t)"
  shows "onASRResult (Some t) s = onRecognitionResult t ((emit StopMediaTo s)\<lparr>isListening := False\<rparr>)"
  using assms by (simp add: onASRResult_def Let_def)

lemma noText_cases: "noText x \<or> (\<exists>t. x = Some t \<and> \<not> noText (Some t))"
  by (cases x) (auto simp: noText_def)

lemma onASRResult_effects_blank:
  assumes "\<not> isProcessing s" "noText x"
  shows "effects (onASRResult x s) =
           effects s @ [StopMediaTo, Say repromptLine] @ (if currentASR s then [SendMediaTo] else [])"
  using assms by (simp add: onASRResult_blank)

lemma onASRResult_effects_words:
  assumes "\<not> isProcessing s" "\<not> noText (Some t)"
  shows "effects (onASRResult (Some t) s) =
           effects s @ [StopMediaTo,
             if MAX_TURNS s \<le> dialogTurnCount s then Say closingLine
             else ProcessText t (if systemPrompt s = [] then None else Some (systemPrompt s))]"
  using assms by (simp add: onASRResult_words)

lemma onASRResult_starts_by_stopping:
  assumes "\<not> isProcessing s"
  shows "take (Suc (length (effects s))) (effects (onASRResult x s)) = effects s @ [StopMediaTo]"
  using assms noText_cases [of x]
  by (auto simp: onASRResult_effects_blank onASRResult_effects_words)

subsection \<open>Events that leave the engine ready for a result\<close>

lemma step_keeps_ready:
  assumes "currentASR s" "\<not> terminated s" "\<not> isProcessing s"
      and "\<not> isASRResult (snd e)" "\<not> endsCall (snd e)"
  shows "currentASR (step e s) \<and> \<not> terminated (step e s) \<and> \<not> isProcessing (step e s)"
proof (cases e)
  case (Pair now ev)
  with assms show ?thesis by (cases ev) simp_all
qed

lemma run_keeps_ready:
  assumes "currentASR s" "\<not> terminated s" "\<not> isProcessing s"
      and "\<forall>e \<in> set es. \<not> isASRResult (snd e) \<and> \<not> endsCall (snd e)"
  shows "currentASR (run es s) \<and> \<not> terminated (run es s) \<and> \<not> isProcessing (run es s)"
  using assms unfolding run_def
proof (induction es arbitrary: s)
  case Nil
  then show ?case by simp
next
  case (Cons e es)
  have "currentASR (step e s) \<and> \<not> terminated (step e s) \<and> \<not> isProcessing (step e s)"
    using Cons.prems by (intro step_keeps_ready) simp_all
  with Cons show ?case by simp
qed

subsection \<open>Barge-in\<close>

text \<open>
  Claim C1. In every state in which \<open>isSpeaking\<close> is true (the recogniser exists and
  the scenario has not terminated, so that the event can be delivered), a
  CaptureStarted event leaves \<open>isSpeaking\<close> and \<open>isProcessing\<close> false and calls
  \<open>stopPlayback\<close>, and nothing else. Whatever events follow before the next
  recognition result (none of them a result, none of them the end of the call),
  \<open>isProcessing\<close> is still false when that result arrives, so the handler does not
  return at its guard: it stops the media to the recogniser first, and a result
  with words is counted as a user turn. This holds for all states, hence for the
  reachable ones.
\<close>

theorem barge_in:
  assumes "isSpeaking s" and "currentASR s" and "\<not> terminated s"
      and "\<forall>e \<in> set es. \<not> isASRResult (snd e) \<and> \<not> endsCall (snd e)"
  shows "let s1 = step (now, CaptureStarted) s;
             s2 = run es s1;
             s3 = step (later, ASRResult text) s2
         in \<not> isSpeaking s1 \<and> \<not> isProcessing s1 \<and> effects s1 = effects s @ [StopPlayback]
            \<and> \<not> isProcessing s2
            \<and> take (Suc (length (effects s2))) (effects s3) = effects s2 @ [StopMediaTo]
            \<and> dialogTurnCount s3 = (if noText text then dialogTurnCount s2 else Suc (dialogTurnCount s2))"
proof -
  define s1 where "s1 = step (now, CaptureStarted) s"
  define s2 where "s2 = run es s1"
  have s1: "\<not> isSpeaking s1" "\<not> isProcessing s1" "effects s1 = effects s @ [StopPlayback]"
    "currentASR s1" "\<not> terminated s1"
    using assms(1-3) by (simp_all add: s1_def)
  have s2: "currentASR s2 \<and> \<not> terminated s2 \<and> \<not> isProcessing s2"
    unfolding s2_def using s1 assms(4) by (intro run_keeps_ready) simp_all
  have "take (Suc (length (effects s2))) (effects (step (later, ASRResult text) s2))
          = effects s2 @ [StopMediaTo]"
    using s2 by (simp add: onASRResult_starts_by_stopping)
  moreover have "dialogTurnCount (step (later, ASRResult text) s2)
          = (if noText text then dialogTurnCount s2 else Suc (dialogTurnCount s2))"
    using s2 by simp
  ultimately show ?thesis
    unfolding Let_def s1_def [symmetric] s2_def [symmetric] using s1 s2 by blast
qed


theorem barge_in_witness:
  "isSpeaking greetingPlaying \<and> currentASR greetingPlaying \<and> \<not> terminated greetingPlaying
   \<and> (let s1 = step (2000, CaptureStarted) greetingPlaying;
            s3 = step (4000, ASRResult (Some [0x434, 0x430])) s1
        in \<not> isSpeaking s1 \<and> \<not> isProcessing s1
           \<and> effects s1 = effects greetingPlaying @ [StopPlayback]
           \<and> take (Suc (length (effects s1))) (effects s3) = effects s1 @ [StopMediaTo]
           \<and> dialogTurnCount s3 = Suc (dialogTurnCount s1))"
proof -
  have pre: "isSpeaking greetingPlaying" "currentASR greetingPlaying" "\<not> terminated greetingPlaying"
    by (simp_all add: greetingPlaying_def run_def scenarioInit_def)
  have words: "\<not> noText (Some [0x434, 0x430])"
    by (simp add: noText_def trim_def isWhiteSpace_def)
  show ?thesis
    using barge_in [OF pre, of "[]" 2000 4000 "Some [0x434, 0x430]"] pre words
    by (simp add: Let_def run_def)
qed

lemma text_fields [simp]:
  "systemPrompt (useCustom d s) =
     (case prompt d of Some p \<Rightarrow> if p \<noteq> [] then p else systemPrompt s | None \<Rightarrow> systemPrompt s)"
  "greetingMessage (useCustom d s) =
     (case greeting d of Some g \<Rightarrow> if g \<noteq> [] then g else greetingMessage s | None \<Rightarrow> greetingMessage s)"
  "systemPrompt (onStarted now cd s) =
     (case cd of None \<Rightarrow> systemPrompt s | Some d \<Rightarrow> systemPrompt (useCustom d s))"
  "greetingMessage (onStarted now cd s) =
     (case cd of None \<Rightarrow> greetingMessage s | Some d \<Rightarrow> greetingMessage (useCustom d s))"
  "systemPrompt (onCallConnected now s) = systemPrompt s"
  "greetingMessage (onCallConnected now s) = greetingMessage s"
  "systemPrompt (onGreetingResponse c cd s) =
     (if c = 200 then (case cd of None \<Rightarrow> systemPrompt s | Some d \<Rightarrow> systemPrompt (useCustom d s))
      else systemPrompt s)"
  "greetingMessage (onGreetingResponse c cd s) =
     (if c = 200 then (case cd of None \<Rightarrow> greetingMessage s | Some d \<Rightarrow> greetingMessage (useCustom d s))
      else greetingMessage s)"
  by (simp_all add: useCustom_def onStarted_def onCallConnected_def initASR_def
      onGreetingResponse_def Let_def split: option.splits)

lemma speaking_fields [simp]:
  "effects (onGreetingResponse c cd s) =
     effects s @ [SaveAIMessage (greetingMessage (onGreetingResponse c cd s)),
                  Say (greetingMessage (onGreetingResponse c cd s))]
       @ (if currentASR s \<and> \<not> isProcessing s \<and> \<not> isListening s then [SendMediaTo] else [])"
  "isListening (onGreetingResponse c cd s) = (isListening s \<or> (currentASR s \<and> \<not> isProcessing s))"
  "playbackListeners (onGreetingResponse c cd s) = playbackListeners s @ [False]"
  "isListening (onBackendResponse r s) = (isListening s \<or> (currentASR s \<and> \<not> isProcessing s))"
  by (simp_all add: onGreetingResponse_def onBackendResponse_def handleError_def Let_def
      split: option.splits response.splits body.splits)

lemma newEffects_append: "effects s' = effects s @ xs \<Longrightarrow> newEffects s s' = xs"
  by (simp add: newEffects_def)

lemma newEffects_same [simp]: "newEffects s s = []"
  by (simp add: newEffects_def)

lemma trim_empty_iff: "trim t = [] \<longleftrightarrow> (\<forall>c \<in> set t. isWhiteSpace c)"
proof
  assume "trim t = []"
  then have all: "\<forall>c \<in> set (dropWhile isWhiteSpace t). isWhiteSpace c"
    by (simp add: trim_def)
  have "dropWhile isWhiteSpace t = []"
  proof (rule ccontr)
    assume ne: "dropWhile isWhiteSpace t \<noteq> []"
    then have "\<not> isWhiteSpace (hd (dropWhile isWhiteSpace t))"
      by (rule hd_dropWhile)
    moreover have "hd (dropWhile isWhiteSpace t) \<in> set (dropWhile isWhiteSpace t)"
      using ne by simp
    ultimately show False using all by blast
  qed
  then show "\<forall>c \<in> set t. isWhiteSpace c"
    by simp
next
  assume "\<forall>c \<in> set t. isWhiteSpace c"
  then have none: "dropWhile isWhiteSpace t = []"
    by simp
  show "trim t = []" unfolding trim_def none by simp
qed

lemma noText_iff:
  "noText x \<longleftrightarrow> (case x of None \<Rightarrow> True | Some t \<Rightarrow> \<forall>c \<in> set t. isWhiteSpace c)"
  by (cases x) (auto simp: noText_def trim_empty_iff)

subsection \<open>The recognition result\<close>

text \<open>
  Claim C3. When a recognition result is delivered (the recogniser exists, the
  scenario has not terminated): if \<open>isProcessing\<close> is true the event changes
  nothing, so nothing is appended to the trace and no generation request is sent.
  Otherwise the handler first stops the media to the recogniser and clears
  \<open>isListening\<close>. A result without words then goes to the re-prompt, whose
  \<open>speak\<close> finds \<open>isListening\<close> false and starts the capture again. A result with
  words goes to the generation step \<open>onRecognitionResult\<close>: \<open>isListening\<close> stays
  false, \<open>isProcessing\<close> becomes true and the text is sent to the backend, unless
  the turn check at the head of that step speaks the closing line instead.
\<close>

theorem recognition_result:
  assumes "currentASR s" and "\<not> terminated s"
  shows "let s' = step (now, ASRResult x) s
         in (isProcessing s \<longrightarrow> s' = s \<and> newEffects s s' = [])
          \<and> (\<not> isProcessing s \<and> noText x \<longrightarrow>
                newEffects s s' = [StopMediaTo, Say repromptLine, SendMediaTo]
                \<and> \<not> isProcessing s' \<and> dialogTurnCount s' = dialogTurnCount s)
          \<and> (\<forall>t. \<not> isProcessing s \<and> x = Some t \<and> \<not> noText x \<longrightarrow>
                newEffects s s' =
                  [StopMediaTo,
                   if MAX_TURNS s \<le> dialogTurnCount s then Say closingLine
                   else ProcessText t (if systemPrompt s = [] then None else Some (systemPrompt s))]
                \<and> \<not> isListening s' \<and> isProcessing s')"
proof -
  have busy: "isProcessing s \<Longrightarrow> onASRResult x s = s"
    by (rule onASRResult_busy)
  have blank: "newEffects s (onASRResult x s) = [StopMediaTo, Say repromptLine, SendMediaTo]
      \<and> \<not> isProcessing (onASRResult x s)"
    if "\<not> isProcessing s" "noText x"
    using that assms(1) by (simp add: newEffects_append onASRResult_blank)
  have words: "newEffects s (onASRResult (Some t) s) =
        [StopMediaTo,
         if MAX_TURNS s \<le> dialogTurnCount s then Say closingLine
         else ProcessText t (if systemPrompt s = [] then None else Some (systemPrompt s))]
      \<and> \<not> isListening (onASRResult (Some t) s) \<and> isProcessing (onASRResult (Some t) s)"
    if "\<not> isProcessing s" "\<not> noText (Some t)" for t
    using that by (simp add: newEffects_append onASRResult_words)
  show ?thesis
    using assms busy blank words by (auto simp: Let_def)
qed

theorem recognition_result_witness:
  "currentASR awaitingReply \<and> \<not> terminated awaitingReply \<and> isProcessing awaitingReply
   \<and> step (9500, ASRResult (Some [0x434, 0x430])) awaitingReply = awaitingReply
   \<and> currentASR greetingPlaying \<and> \<not> terminated greetingPlaying \<and> \<not> isProcessing greetingPlaying
   \<and> \<not> noText (Some [0x434, 0x430])
   \<and> newEffects greetingPlaying (step (9500, ASRResult (Some [0x434, 0x430])) greetingPlaying)
        = [StopMediaTo, ProcessText [0x434, 0x430] None]
   \<and> noText (Some [0x20])
   \<and> newEffects greetingPlaying (step (9500, ASRResult (Some [0x20])) greetingPlaying)
        = [StopMediaTo, Say repromptLine, SendMediaTo]"
proof -
  have a: "currentASR awaitingReply" "\<not> terminated awaitingReply" "isProcessing awaitingReply"
    by (simp_all add: awaitingReply_def run_def scenarioInit_def onASRResult_def Let_def
        noText_def trim_def isWhiteSpace_def)
  have g: "currentASR greetingPlaying" "\<not> terminated greetingPlaying"
    "\<not> isProcessing greetingPlaying" "systemPrompt greetingPlaying = []"
    "MAX_TURNS greetingPlaying = 12" "dialogTurnCount greetingPlaying = 0"
    by (simp_all add: greetingPlaying_def run_def scenarioInit_def)
  have w: "\<not> noText (Some [0x434, 0x430])" "noText (Some [0x20])"
    by (simp_all add: noText_def trim_def isWhiteSpace_def)
  show ?thesis
    using recognition_result [OF a(1,2), of 9500 "Some [0x434, 0x430]"]
      recognition_result [OF g(1,2), of 9500 "Some [0x434, 0x430]"]
      recognition_result [OF g(1,2), of 9500 "Some [0x20]"] a g w
    by (simp add: Let_def)
qed

lemma ending_fields [simp]:
  "effects (onCallDisconnected now s) =
     effects s @ (if currentASR s then [StopMediaTo, StopASR] else [])
       @ [Webhook ''CallDisconnected'' now, Terminate]"
  "playbackListeners (onCallDisconnected now s) = playbackListeners s"
  "pendingProcess (onCallDisconnected now s) = pendingProcess s"
  "isListening (onCallDisconnected now s) = isListening s"
  "playbackListeners (onCallFailed now s) = playbackListeners s"
  "pendingProcess (onCallFailed now s) = pendingProcess s"
  "isListening (onCallFailed now s) = isListening s"
  by (simp_all add: onCallDisconnected_def onCallFailed_def terminate_def Let_def)

lemma userTurns_append:
  "effects s' = effects s @ xs \<Longrightarrow> userTurns s' = userTurns s + length (filter isProcessText xs)"
  by (simp add: userTurns_def)

subsection \<open>Hanging up\<close>

lemma listeners_no_hangup:
  "True \<notin> set hs \<Longrightarrow> Hangup \<notin> set (effects s) \<Longrightarrow>
     Hangup \<notin> set (effects (foldl (\<lambda>a h. once h a) s hs))"
  by (induction hs arbitrary: s) auto

lemma playback_no_hangup:
  "True \<notin> set (playbackListeners s) \<Longrightarrow> Hangup \<notin> set (effects s) \<Longrightarrow>
     Hangup \<notin> set (effects (onPlaybackFinished s))"
  by (simp add: onPlaybackFinished_def listeners_no_hangup)

subsection \<open>Results without words\<close>

text \<open>
  Claim C7. A recognition result whose text is missing, empty or made of white
  space only is not taken as a user turn: the turn counter, the number of texts
  sent to the backend and the number of requests in flight stay as they are, and
  no generation request is made. The fixed re-prompt line is spoken at most once
  for it: not at all if \<open>isProcessing\<close> holds (the event is dropped), and otherwise
  exactly once, with the capture restarted in the same handler (the media is
  stopped, the line is spoken, the media is sent again and \<open>isListening\<close> holds).
\<close>

theorem blank_result:
  assumes "currentASR s" and "\<not> terminated s"
      and "case x of None \<Rightarrow> True | Some t \<Rightarrow> \<forall>c \<in> set t. isWhiteSpace c"
  shows "let s' = step (now, ASRResult x) s
         in dialogTurnCount s' = dialogTurnCount s \<and> userTurns s' = userTurns s
            \<and> pendingProcess s' = pendingProcess s
            \<and> \<not> list_ex isProcessText (newEffects s s')
            \<and> count_list (newEffects s s') (Say repromptLine) \<le> 1
            \<and> (isProcessing s \<longrightarrow> s' = s)
            \<and> (\<not> isProcessing s \<longrightarrow>
                  newEffects s s' = [StopMediaTo, Say repromptLine, SendMediaTo]
                  \<and> isListening s' \<and> \<not> isProcessing s')"
proof (cases "isProcessing s")
  case True
  then show ?thesis using assms(1,2) by (simp add: onASRResult_busy)
next
  case False
  have blank: "noText x" using assms(3) by (simp add: noText_iff)
  have eq: "step (now, ASRResult x) s
              = speak repromptLine False ((emit StopMediaTo s)\<lparr>isListening := False\<rparr>)"
    using assms(1,2) False blank by (simp add: onASRResult_blank)
  have eff: "effects (step (now, ASRResult x) s)
              = effects s @ [StopMediaTo, Say repromptLine, SendMediaTo]"
    unfolding eq using assms(1) False by simp
  have new: "newEffects s (step (now, ASRResult x) s) = [StopMediaTo, Say repromptLine, SendMediaTo]"
    using eff by (rule newEffects_append)
  have turns: "userTurns (step (now, ASRResult x) s) = userTurns s"
    using userTurns_append [OF eff] by simp
  have flags: "isListening (step (now, ASRResult x) s)" "\<not> isProcessing (step (now, ASRResult x) s)"
    "dialogTurnCount (step (now, ASRResult x) s) = dialogTurnCount s"
    "pendingProcess (step (now, ASRResult x) s) = pendingProcess s"
    unfolding eq using assms(1) False by simp_all
  show ?thesis
    unfolding Let_def new using False turns flags by simp
qed

theorem blank_result_witness:
  "currentASR greetingPlaying \<and> \<not> terminated greetingPlaying
   \<and> list_all isWhiteSpace [0x20, 0x9, 0xA0]
   \<and> newEffects greetingPlaying (step (7000, ASRResult (Some [0x20, 0x9, 0xA0])) greetingPlaying)
        = [StopMediaTo, Say repromptLine, SendMediaTo]
   \<and> dialogTurnCount (step (7000, ASRResult (Some [0x20, 0x9, 0xA0])) greetingPlaying) = 0"
proof -
  have g: "currentASR greetingPlaying" "\<not> terminated greetingPlaying"
    "\<not> isProcessing greetingPlaying" "dialogTurnCount greetingPlaying = 0"
    by (simp_all add: greetingPlaying_def run_def scenarioInit_def)
  have w: "case Some [0x20, 0x9, 0xA0] of None \<Rightarrow> True | Some t \<Rightarrow> \<forall>c \<in> set t. isWhiteSpace c"
    by (simp add: isWhiteSpace_def)
  show ?thesis
    using blank_result [OF g(1,2) w, of 7000] g w by (simp add: Let_def)
qed

lemma step_without_words:
  assumes "\<not> carriesWords (snd e)"
      and "dialogTurnCount s = 0 \<and> pendingProcess s = 0
           \<and> True \<notin> set (playbackListeners s) \<and> Hangup \<notin> set (effects s)"
  shows "dialogTurnCount (step e s) = 0 \<and> pendingProcess (step e s) = 0
         \<and> True \<notin> set (playbackListeners (step e s)) \<and> Hangup \<notin> set (effects (step e s))"
proof (cases e)
  case (Pair now ev)
  show ?thesis
  proof (cases ev)
    case (ASRResult x)
    show ?thesis
    proof (cases "isProcessing s")
      case True
      then show ?thesis using assms Pair ASRResult by (simp add: onASRResult_busy)
    next
      case False
      then show ?thesis using assms Pair ASRResult by (simp add: onASRResult_blank)
    qed
  next
    case PlaybackFinished
    then show ?thesis using assms Pair by (simp add: playback_no_hangup)
  qed (use assms Pair in simp_all)
qed

lemma run_without_words:
  assumes "\<forall>e \<in> set es. \<not> carriesWords (snd e)"
      and "dialogTurnCount s = 0 \<and> pendingProcess s = 0
           \<and> True \<notin> set (playbackListeners s) \<and> Hangup \<notin> set (effects s)"
  shows "dialogTurnCount (run es s) = 0 \<and> Hangup \<notin> set (effects (run es s))"
  using assms unfolding run_def
proof (induction es arbitrary: s)
  case Nil
  then show ?case by simp
next
  case (Cons e es)
  have "dialogTurnCount (step e s) = 0 \<and> pendingProcess (step e s) = 0
         \<and> True \<notin> set (playbackListeners (step e s)) \<and> Hangup \<notin> set (effects (step e s))"
    using Cons.prems by (intro step_without_words) simp_all
  with Cons show ?case by simp
qed

text \<open>
  Claim C10. An event increments \<open>dialogTurnCount\<close>, by one, exactly when it is a
  recognition result with words that is accepted (the recogniser exists, the
  scenario has not terminated and \<open>isProcessing\<close> is false); every other event
  leaves the counter alone. So in a run from the initial state, with any turn
  limit, in which no result carries words, the counter stays at zero: the test
  \<open>dialogTurnCount > MAX_TURNS\<close> can not succeed, and the scenario never hangs
  up, however many re-prompts it speaks.
\<close>

theorem turn_counter:
  "dialogTurnCount (step (now, e) s) =
     (if carriesWords e \<and> currentASR s \<and> \<not> terminated s \<and> \<not> isProcessing s
      then Suc (dialogTurnCount s) else dialogTurnCount s)
   \<and> ((\<forall>e \<in> set es. \<not> carriesWords (snd e)) \<longrightarrow>
        dialogTurnCount (run es (scenarioInit\<lparr>MAX_TURNS := m\<rparr>)) = 0
        \<and> Hangup \<notin> set (effects (run es (scenarioInit\<lparr>MAX_TURNS := m\<rparr>))))"
proof -
  have "dialogTurnCount (step (now, e) s) =
     (if carriesWords e \<and> currentASR s \<and> \<not> terminated s \<and> \<not> isProcessing s
      then Suc (dialogTurnCount s) else dialogTurnCount s)"
    by (cases e) simp_all
  moreover have "dialogTurnCount (run es (scenarioInit\<lparr>MAX_TURNS := m\<rparr>)) = 0
        \<and> Hangup \<notin> set (effects (run es (scenarioInit\<lparr>MAX_TURNS := m\<rparr>)))"
    if "\<forall>e \<in> set es. \<not> carriesWords (snd e)"
    using that by (intro run_without_words) (simp_all add: scenarioInit_def)
  ultimately show ?thesis by blast
qed

theorem turn_counter_witness:
  "list_all (\<lambda>e. \<not> carriesWords (snd e))
      [(0, Started None), (1000, CallConnected), (1500, GreetingResponse 200 None),
       (6000, PlaybackFinished), (9000, ASRResult (Some [0x20])),
       (12000, PlaybackFinished), (15000, ASRResult None)]
   \<and> dialogTurnCount (run [(0, Started None), (1000, CallConnected), (1500, GreetingResponse 200 None),
               (6000, PlaybackFinished), (9000, ASRResult (Some [0x20])),
               (12000, PlaybackFinished), (15000, ASRResult None)] (scenarioInit\<lparr>MAX_TURNS := 1\<rparr>)) = 0
   \<and> dialogTurnCount (step (9000, ASRResult (Some [0x434, 0x430])) greetingPlaying)
       = Suc (dialogTurnCount greetingPlaying)"
proof -
  have w: "\<forall>e \<in> set [(0, Started None), (1000, CallConnected), (1500, GreetingResponse 200 None),
               (6000, PlaybackFinished), (9000, ASRResult (Some [0x20])),
               (12000, PlaybackFinished), (15000, ASRResult None)]. \<not> carriesWords (snd e)"
    by (simp add: noText_def trim_def isWhiteSpace_def)
  have g: "currentASR greetingPlaying" "\<not> terminated greetingPlaying"
    "\<not> isProcessing greetingPlaying"
    by (simp_all add: greetingPlaying_def run_def scenarioInit_def)
  have c: "carriesWords (ASRResult (Some [0x434, 0x430]))"
    by (simp add: noText_def trim_def isWhiteSpace_def)
  show ?thesis
    using turn_counter [of 9000 "ASRResult (Some [0x434, 0x430])" greetingPlaying
        "[(0, Started None), (1000, CallConnected), (1500, GreetingResponse 200 None),
               (6000, PlaybackFinished), (9000, ASRResult (Some [0x20])),
               (12000, PlaybackFinished), (15000, ASRResult None)]" 1] w g c
    by simp
qed

subsection \<open>One capture at a time\<close>

lemma capturesFrom_snoc:
  "capturesFrom n (xs @ [x]) =
    (case x of SendMediaTo \<Rightarrow> Suc (capturesFrom n xs) | StopMediaTo \<Rightarrow> 0 | _ \<Rightarrow> capturesFrom n xs)"
  by (induction n xs rule: capturesFrom.induct) (auto split: effect.splits)

lemma captureInv_update [simp]:
  "captureInv (s\<lparr>greetingMessage := g\<rparr>) = captureInv s"
  "captureInv (s\<lparr>systemPrompt := p\<rparr>) = captureInv s"
  "captureInv (s\<lparr>currentCall := b\<rparr>) = captureInv s"
  "captureInv (s\<lparr>currentASR := b\<rparr>) = captureInv s"
  "captureInv (s\<lparr>dialogTurnCount := n\<rparr>) = captureInv s"
  "captureInv (s\<lparr>isProcessing := b\<rparr>) = captureInv s"
  "captureInv (s\<lparr>isSpeaking := b\<rparr>) = captureInv s"
  "captureInv (s\<lparr>playbackListeners := hs\<rparr>) = captureInv s"
  "captureInv (s\<lparr>pendingGreeting := n\<rparr>) = captureInv s"
  "captureInv (s\<lparr>pendingProcess := n\<rparr>) = captureInv s"
  "captureInv (s\<lparr>terminated := b\<rparr>) = captureInv s"
  by (simp_all add: captureInv_def activeCaptures_def)

lemma captureInv_emit:
  "x \<noteq> SendMediaTo \<Longrightarrow> captureInv s \<Longrightarrow> captureInv (emit x s)"
  by (cases x) (simp_all add: captureInv_def activeCaptures_def capturesFrom_snoc split: if_splits)

lemma captureInv_stop: "captureInv ((emit StopMediaTo s)\<lparr>isListening := False\<rparr>)"
  by (simp add: captureInv_def activeCaptures_def capturesFrom_snoc)

lemma captureInv_startListening: "captureInv s \<Longrightarrow> captureInv (startListening s)"
  by (auto simp: captureInv_def activeCaptures_def capturesFrom_snoc split: if_splits)

lemma captureInv_speak: "captureInv s \<Longrightarrow> captureInv (speak t h s)"
  by (simp add: speak_def Let_def captureInv_emit captureInv_startListening)

lemma captureInv_once: "captureInv s \<Longrightarrow> captureInv (once h s)"
  by (simp add: once_def Let_def captureInv_emit captureInv_startListening)

lemma captureInv_listeners: "captureInv s \<Longrightarrow> captureInv (foldl (\<lambda>a h. once h a) s hs)"
  by (induction hs arbitrary: s) (simp_all add: captureInv_once)

lemma captureInv_useCustom: "captureInv (useCustom d s) = captureInv s"
  by (simp add: useCustom_def Let_def split: option.splits)

lemma captureInv_onASRResult: "captureInv s \<Longrightarrow> captureInv (onASRResult x s)"
  by (simp add: onASRResult_def onRecognitionResult_def processTextWithAI_def Let_def
      captureInv_stop captureInv_speak captureInv_emit split: option.splits)

lemma captureInv_onBackendResponse: "captureInv s \<Longrightarrow> captureInv (onBackendResponse r s)"
  by (simp add: onBackendResponse_def handleError_def captureInv_speak
      split: response.splits body.splits)

lemma captureInv_step: "captureInv s \<Longrightarrow> captureInv (step e s)"
proof (cases e)
  case (Pair now ev)
  assume inv: "captureInv s"
  show ?thesis
  proof (cases ev)
    case (Started cd)
    then show ?thesis using inv Pair
      by (simp add: onStarted_def Let_def captureInv_emit captureInv_useCustom split: option.splits)
  next
    case CallConnected
    then show ?thesis using inv Pair
      by (simp add: onCallConnected_def initASR_def Let_def captureInv_emit)
  next
    case (GreetingResponse code d)
    then show ?thesis using inv Pair
      by (simp add: onGreetingResponse_def Let_def captureInv_emit captureInv_speak
          captureInv_useCustom split: option.splits)
  next
    case CaptureStarted
    then show ?thesis using inv Pair
      by (simp add: onCaptureStarted_def captureInv_emit)
  next
    case (ASRResult t)
    then show ?thesis using inv Pair by (simp add: captureInv_onASRResult)
  next
    case PlaybackFinished
    then show ?thesis using inv Pair
      by (simp add: onPlaybackFinished_def captureInv_listeners)
  next
    case (BackendResponse r)
    then show ?thesis using inv Pair by (simp add: captureInv_onBackendResponse)
  next
    case CallDisconnected
    then show ?thesis using inv Pair
      by (simp add: onCallDisconnected_def terminate_def Let_def captureInv_emit)
  next
    case CallFailed
    then show ?thesis using inv Pair
      by (simp add: onCallFailed_def terminate_def captureInv_emit)
  qed
qed

lemma captureInv_run: "captureInv s \<Longrightarrow> captureInv (run es s)"
  unfolding run_def by (induction es arbitrary: s) (simp_all add: captureInv_step)

lemma captureInv_bound: "captureInv s \<Longrightarrow> activeCaptures s \<le> 1"
  by (simp add: captureInv_def split: if_splits)

subsection \<open>What the listeners append\<close>

lemma listeners_listening:
  "isListening s \<Longrightarrow> isListening (foldl (\<lambda>a h. once h a) s hs)"
  by (induction hs arbitrary: s) simp_all

lemma listeners_effects:
  "\<exists>xs. effects (foldl (\<lambda>a h. once h a) s hs) = effects s @ xs
        \<and> set xs \<subseteq> {Hangup, SendMediaTo}
        \<and> (Hangup \<in> set xs \<longleftrightarrow> True \<in> set hs)
        \<and> (SendMediaTo \<in> set xs \<longrightarrow> hs \<noteq> [] \<and> isListening (foldl (\<lambda>a h. once h a) s hs))"
proof (induction hs arbitrary: s)
  case Nil
  then show ?case by simp
next
  case (Cons h hs)
  define ys where "ys = (if h then [Hangup]
      else if currentASR s \<and> \<not> isListening s then [SendMediaTo] else [])"
  have first: "effects (once h s) = effects s @ ys"
    by (simp add: ys_def)
  have heard: "SendMediaTo \<in> set ys \<Longrightarrow> isListening (once h s)"
    by (auto simp: ys_def split: if_splits)
  obtain xs where rest: "effects (foldl (\<lambda>a h. once h a) (once h s) hs) = effects (once h s) @ xs"
      "set xs \<subseteq> {Hangup, SendMediaTo}" "Hangup \<in> set xs \<longleftrightarrow> True \<in> set hs"
      "SendMediaTo \<in> set xs \<longrightarrow> isListening (foldl (\<lambda>a h. once h a) (once h s) hs)"
    using Cons.IH [of "once h s"] by blast
  have "effects (foldl (\<lambda>a h. once h a) s (h # hs)) = effects s @ (ys @ xs)"
    using first rest(1) by simp
  moreover have "set (ys @ xs) \<subseteq> {Hangup, SendMediaTo}"
    using rest(2) by (auto simp: ys_def)
  moreover have "Hangup \<in> set (ys @ xs) \<longleftrightarrow> True \<in> set (h # hs)"
    using rest(3) by (auto simp: ys_def)
  moreover have "SendMediaTo \<in> set (ys @ xs) \<longrightarrow>
      h # hs \<noteq> [] \<and> isListening (foldl (\<lambda>a h. once h a) s (h # hs))"
    using rest(4) heard listeners_listening [of "once h s" hs] by auto
  ultimately show ?case by blast
qed

lemma playback_effects:
  "\<exists>xs. effects (onPlaybackFinished s) = effects s @ xs
        \<and> set xs \<subseteq> {Hangup, SendMediaTo}
        \<and> (Hangup \<in> set xs \<longleftrightarrow> True \<in> set (playbackListeners s))
        \<and> (SendMediaTo \<in> set xs \<longrightarrow>
              playbackListeners s \<noteq> [] \<and> isListening (onPlaybackFinished s))"
  using listeners_effects [of "s\<lparr>playbackListeners := []\<rparr>" "playbackListeners s"]
  by (simp add: onPlaybackFinished_def)

lemma backend_effects:
  "\<exists>t. effects (onBackendResponse r s) =
        effects s @ Say t # (if currentASR s \<and> \<not> isProcessing s \<and> \<not> isListening s
                             then [SendMediaTo] else [])"
  by (cases r) (auto simp: onBackendResponse_def handleError_def split: body.splits)

lemma step_capture_start:
  assumes "SendMediaTo \<in> set (newEffects s (step e s))"
  shows "\<not> isProcessing (step e s) \<and> isListening (step e s)"
proof (cases "terminated s")
  case True
  then show ?thesis using assms by (cases e) simp
next
  case live: False
  obtain now ev where e: "e = (now, ev)" by (cases e)
  show ?thesis
  proof (cases ev)
    case (Started cd)
    then show ?thesis using assms live e by (simp add: newEffects_def)
  next
    case CallConnected
    then show ?thesis using assms live e by (simp add: newEffects_def split: if_splits)
  next
    case (GreetingResponse code d)
    then show ?thesis using assms live e by (simp add: newEffects_def split: if_splits)
  next
    case CaptureStarted
    then show ?thesis using assms live e by (simp add: newEffects_def split: if_splits)
  next
    case (ASRResult x)
    show ?thesis
    proof (cases "currentASR s \<and> \<not> isProcessing s")
      case False
      then show ?thesis using assms live e ASRResult by (auto simp: onASRResult_busy)
    next
      case True
      from noText_cases [of x] show ?thesis
      proof
        assume "noText x"
        then show ?thesis using True live e ASRResult by (simp add: onASRResult_blank)
      next
        assume "\<exists>t. x = Some t \<and> \<not> noText (Some t)"
        then obtain t where "x = Some t" "\<not> noText (Some t)" by blast
        then have "newEffects s (step e s) =
            [StopMediaTo, if MAX_TURNS s \<le> dialogTurnCount s then Say closingLine
              else ProcessText t (if systemPrompt s = [] then None else Some (systemPrompt s))]"
          using True live e ASRResult
          by (simp add: newEffects_append onASRResult_effects_words)
        then show ?thesis using assms by (simp split: if_splits)
      qed
    qed
  next
    case PlaybackFinished
    obtain xs where xs: "effects (onPlaybackFinished s) = effects s @ xs"
        "SendMediaTo \<in> set xs \<longrightarrow> playbackListeners s \<noteq> [] \<and> isListening (onPlaybackFinished s)"
      using playback_effects [of s] by blast
    have "newEffects s (step e s) = xs"
      using xs(1) live e PlaybackFinished by (simp add: newEffects_append)
    then show ?thesis using assms xs(2) live e PlaybackFinished by simp
  next
    case (BackendResponse r)
    show ?thesis
    proof (cases "pendingProcess s = 0")
      case True
      then show ?thesis using assms live e BackendResponse by simp
    next
      case False
      define s0 where "s0 = s\<lparr>pendingProcess := pendingProcess s - 1\<rparr>"
      obtain t where t: "effects (onBackendResponse r s0) =
          effects s0 @ Say t # (if currentASR s0 \<and> \<not> isProcessing s0 \<and> \<not> isListening s0
                                then [SendMediaTo] else [])"
        using backend_effects [of r s0] by blast
      have st: "step e s = onBackendResponse r s0"
        using False live e BackendResponse by (simp add: s0_def)
      have "newEffects s (step e s) =
          Say t # (if currentASR s \<and> \<not> isProcessing s \<and> \<not> isListening s then [SendMediaTo] else [])"
        unfolding st using t by (simp add: newEffects_def s0_def)
      then show ?thesis using assms unfolding st by (simp add: s0_def split: if_splits)
    qed
  next
    case CallDisconnected
    then show ?thesis using assms live e by (simp add: newEffects_def split: if_splits)
  next
    case CallFailed
    then show ?thesis using assms live e by (simp add: newEffects_def split: if_splits)
  qed
qed

text \<open>
  Claim C4. Capture is started only when \<open>isProcessing\<close> and \<open>isListening\<close> are
  both false: \<open>startListening\<close> sends media to the recogniser only from such a
  state, and whenever the handling of an event sends media, \<open>isProcessing\<close> is
  false and \<open>isListening\<close> is true when the handler returns (no handler sets
  \<open>isProcessing\<close> after it has started a capture). Hence in every state reached from the
  initial one, by any events in any order, at most one stream of media to the
  recogniser is open. A barge-in (CaptureStarted while speaking, as during the
  greeting) only stops the playback: it starts no capture and leaves the number
  of open streams as it is.
\<close>

theorem single_capture:
  "(SendMediaTo \<in> set (newEffects s (startListening s)) \<longrightarrow> \<not> isProcessing s \<and> \<not> isListening s)
   \<and> (SendMediaTo \<in> set (newEffects s (step e s)) \<longrightarrow>
         \<not> isProcessing (step e s) \<and> isListening (step e s))
   \<and> activeCaptures (run es scenarioInit) \<le> 1
   \<and> (isSpeaking s \<and> currentASR s \<and> \<not> terminated s \<longrightarrow>
         newEffects s (step (now, CaptureStarted) s) = [StopPlayback]
         \<and> activeCaptures (step (now, CaptureStarted) s) = activeCaptures s)"
proof -
  have "SendMediaTo \<in> set (newEffects s (startListening s)) \<Longrightarrow> \<not> isProcessing s \<and> \<not> isListening s"
    by (simp add: newEffects_def split: if_splits)
  moreover have "captureInv scenarioInit"
    by (simp add: captureInv_def activeCaptures_def scenarioInit_def)
  then have "activeCaptures (run es scenarioInit) \<le> 1"
    by (intro captureInv_bound captureInv_run)
  moreover have "newEffects s (step (now, CaptureStarted) s) = [StopPlayback]
         \<and> activeCaptures (step (now, CaptureStarted) s) = activeCaptures s"
    if "isSpeaking s \<and> currentASR s \<and> \<not> terminated s"
    using that by (simp add: newEffects_def activeCaptures_def capturesFrom_snoc)
  ultimately show ?thesis
    using step_capture_start [of s e] by blast
qed

theorem single_capture_witness:
  "SendMediaTo \<in> set (newEffects (run [(0, Started None), (1000, CallConnected)] scenarioInit)
       (startListening (run [(0, Started None), (1000, CallConnected)] scenarioInit)))
   \<and> SendMediaTo \<in> set (newEffects greetingPlaying (step (7000, ASRResult None) greetingPlaying))
   \<and> isListening (step (7000, ASRResult None) greetingPlaying)
   \<and> isSpeaking greetingPlaying \<and> currentASR greetingPlaying \<and> \<not> terminated greetingPlaying
   \<and> activeCaptures greetingPlaying = 1
   \<and> activeCaptures (step (2000, CaptureStarted) greetingPlaying) = 1"
proof -
  define c where "c = run [(0, Started None), (1000, CallConnected)] scenarioInit"
  have c: "currentASR c" "\<not> isProcessing c" "\<not> isListening c"
    by (simp_all add: c_def run_def scenarioInit_def)
  have g: "isSpeaking greetingPlaying" "currentASR greetingPlaying" "\<not> terminated greetingPlaying"
    "\<not> isProcessing greetingPlaying"
    by (simp_all add: greetingPlaying_def run_def scenarioInit_def)
  have n: "activeCaptures greetingPlaying = 1"
    by (simp add: activeCaptures_def greetingPlaying_def run_def scenarioInit_def)
  have r: "SendMediaTo \<in> set (newEffects greetingPlaying (step (7000, ASRResult None) greetingPlaying))"
    using g by (simp add: newEffects_append onASRResult_effects_blank noText_def)
  have "SendMediaTo \<in> set (newEffects c (startListening c))"
    using c by (simp add: newEffects_def)
  then show ?thesis
    using single_capture [of c "(7000, ASRResult None)" "[]" 7000]
      single_capture [of greetingPlaying "(7000, ASRResult None)" "[]" 2000] c g n r
    unfolding c_def [symmetric] by simp
qed

lemmas handler_defs = emit_def startListening_def speak_def once_def onPlaybackFinished_def
  handleError_def onCaptureStarted_def processTextWithAI_def onRecognitionResult_def
  onASRResult_def useCustom_def onStarted_def initASR_def onCallConnected_def
  onGreetingResponse_def onBackendResponse_def terminate_def onCallDisconnected_def
  onCallFailed_def run_def scenarioInit_def noText_def trim_def isWhiteSpace_def Let_def

subsection \<open>The turn limit\<close>

lemma turnInv_same:
  assumes "turnInv s" and "effects s' = effects s @ xs" and "filter isProcessText xs = []"
      and "dialogTurnCount s \<le> dialogTurnCount s'" and "MAX_TURNS s' = MAX_TURNS s"
  shows "turnInv s'"
  using assms userTurns_append [OF assms(2)] by (simp add: turnInv_def)

lemma turnInv_pending [simp]: "turnInv (s\<lparr>pendingProcess := n\<rparr>) = turnInv s"
  "turnInv (s\<lparr>pendingGreeting := n\<rparr>) = turnInv s"
  by (simp_all add: turnInv_def userTurns_def)

lemma turnInv_onASRResult:
  assumes "turnInv s"
  shows "turnInv (onASRResult x s)"
proof (cases "isProcessing s")
  case True
  then show ?thesis using assms by (simp add: onASRResult_busy)
next
  case False
  from noText_cases [of x] show ?thesis
  proof
    assume blank: "noText x"
    show ?thesis
      using assms
    proof (rule turnInv_same)
      show "effects (onASRResult x s) =
          effects s @ ([StopMediaTo, Say repromptLine] @ (if currentASR s then [SendMediaTo] else []))"
        using False blank by (simp add: onASRResult_effects_blank)
    qed (use False blank in simp_all)
  next
    assume "\<exists>t. x = Some t \<and> \<not> noText (Some t)"
    then obtain t where t: "x = Some t" "\<not> noText (Some t)" by blast
    have eff: "effects (onASRResult x s) =
           effects s @ [StopMediaTo,
             if MAX_TURNS s \<le> dialogTurnCount s then Say closingLine
             else ProcessText t (if systemPrompt s = [] then None else Some (systemPrompt s))]"
      using False t by (simp add: onASRResult_effects_words)
    have "dialogTurnCount (onASRResult x s) = Suc (dialogTurnCount s)"
      using False t by simp
    then show ?thesis
      using assms userTurns_append [OF eff] by (auto simp: turnInv_def)
  qed
qed

lemma turnInv_step: "turnInv s \<Longrightarrow> turnInv (step e s)"
proof (cases e)
  case (Pair now ev)
  assume inv: "turnInv s"
  show ?thesis
  proof (cases ev)
    case (ASRResult x)
    then show ?thesis using inv Pair by (simp add: turnInv_onASRResult)
  next
    case PlaybackFinished
    obtain xs where xs: "effects (onPlaybackFinished s) = effects s @ xs"
        "set xs \<subseteq> {Hangup, SendMediaTo}"
      using playback_effects [of s] by blast
    have "filter isProcessText xs = []"
      using xs(2) by (auto simp: filter_empty_conv)
    with inv xs(1) have "turnInv (onPlaybackFinished s)"
      by (rule turnInv_same) simp_all
    then show ?thesis using inv Pair PlaybackFinished by simp
  next
    case (BackendResponse r)
    define s0 where "s0 = s\<lparr>pendingProcess := pendingProcess s - 1\<rparr>"
    obtain t where t: "effects (onBackendResponse r s0) =
          effects s0 @ Say t # (if currentASR s0 \<and> \<not> isProcessing s0 \<and> \<not> isListening s0
                                then [SendMediaTo] else [])"
      using backend_effects [of r s0] by blast
    have "turnInv s0" using inv by (simp add: s0_def)
    then have "turnInv (onBackendResponse r s0)"
      using t by (rule turnInv_same) simp_all
    then show ?thesis using inv Pair BackendResponse by (simp add: s0_def)
  next
    case (Started cd)
    have "turnInv (onStarted now cd s)"
      using inv by (rule turnInv_same [where xs = "[Webhook ''ScenarioStarted'' now, CallPSTN]"]) simp_all
    then show ?thesis using inv Pair Started by simp
  next
    case CallConnected
    have "turnInv (onCallConnected now s)"
      using inv by (rule turnInv_same [where xs = "[Webhook ''CallConnected'' now, CreateASR, GetGreeting]"]) simp_all
    then show ?thesis using inv Pair CallConnected by simp
  next
    case (GreetingResponse code d)
    define s0 where "s0 = s\<lparr>pendingGreeting := pendingGreeting s - 1\<rparr>"
    have "turnInv s0" using inv by (simp add: s0_def)
    then have "turnInv (onGreetingResponse code d s0)"
      by (rule turnInv_same
          [where xs = "[SaveAIMessage (greetingMessage (onGreetingResponse code d s0)),
                        Say (greetingMessage (onGreetingResponse code d s0))]
             @ (if currentASR s0 \<and> \<not> isProcessing s0 \<and> \<not> isListening s0 then [SendMediaTo] else [])"])
        simp_all
    then show ?thesis using inv Pair GreetingResponse by (simp add: s0_def)
  next
    case CaptureStarted
    have "turnInv (onCaptureStarted s)"
      using inv by (rule turnInv_same [where xs = "if isSpeaking s then [StopPlayback] else []"]) simp_all
    then show ?thesis using inv Pair CaptureStarted by simp
  next
    case CallDisconnected
    have "turnInv (onCallDisconnected now s)"
      using inv
      by (rule turnInv_same [where xs = "(if currentASR s then [StopMediaTo, StopASR] else [])
            @ [Webhook ''CallDisconnected'' now, Terminate]"]) simp_all
    then show ?thesis using inv Pair CallDisconnected by simp
  next
    case CallFailed
    have "turnInv (onCallFailed now s)"
      using inv by (rule turnInv_same [where xs = "[Webhook ''CallFailed'' now, Terminate]"]) simp_all
    then show ?thesis using inv Pair CallFailed by simp
  qed
qed

lemma turnInv_run: "turnInv s \<Longrightarrow> turnInv (run es s)"
  unfolding run_def by (induction es arbitrary: s) (simp_all add: turnInv_step)

text \<open>
  Claim C5. When a recognition result with words is accepted and the counter has
  already reached \<open>MAX_TURNS\<close> (so that the incremented counter exceeds it), the
  engine sends nothing to the backend: it stops the media, speaks the fixed
  closing line, and hangs up when the playback of that line finishes. The number
  of user texts handed to the backend (the user turns of the transcript) never
  exceeds the turn limit, in any run from the initial state with any limit \<open>m\<close>;
  with a limit of two there is never a third.
\<close>

theorem turn_limit:
  "(currentASR s \<and> \<not> terminated s \<and> \<not> isProcessing s \<and> \<not> noText (Some t)
      \<and> MAX_TURNS s \<le> dialogTurnCount s \<longrightarrow>
      (let s' = step (now, ASRResult (Some t)) s
       in newEffects s s' = [StopMediaTo, Say closingLine]
          \<and> userTurns s' = userTurns s \<and> pendingProcess s' = pendingProcess s
          \<and> Hangup \<in> set (newEffects s' (step (later, PlaybackFinished) s'))))
   \<and> userTurns (run es (scenarioInit\<lparr>MAX_TURNS := m\<rparr>)) \<le> m
   \<and> userTurns (run es (scenarioInit\<lparr>MAX_TURNS := 2\<rparr>)) < 3"
proof -
  have limit: "userTurns (run es (scenarioInit\<lparr>MAX_TURNS := k\<rparr>)) \<le> k" for k
  proof -
    have "turnInv (scenarioInit\<lparr>MAX_TURNS := k\<rparr>)"
      by (simp add: turnInv_def userTurns_def scenarioInit_def)
    then have "turnInv (run es (scenarioInit\<lparr>MAX_TURNS := k\<rparr>))"
      by (rule turnInv_run)
    moreover have "MAX_TURNS (run es s0) = MAX_TURNS s0" for s0
      unfolding run_def
    proof (induction es arbitrary: s0)
      case Nil
      then show ?case by simp
    next
      case (Cons e es)
      have "MAX_TURNS (step e s0) = MAX_TURNS s0"
      proof (cases e)
        case (Pair now ev)
        then show ?thesis by (cases ev) simp_all
      qed
      with Cons show ?case by simp
    qed
    ultimately show ?thesis by (simp add: turnInv_def scenarioInit_def)
  qed
  have closing: "newEffects s (step (now, ASRResult (Some t)) s) = [StopMediaTo, Say closingLine]
          \<and> userTurns (step (now, ASRResult (Some t)) s) = userTurns s
          \<and> pendingProcess (step (now, ASRResult (Some t)) s) = pendingProcess s
          \<and> Hangup \<in> set (newEffects (step (now, ASRResult (Some t)) s)
                (step (later, PlaybackFinished) (step (now, ASRResult (Some t)) s)))"
    if pre: "currentASR s \<and> \<not> terminated s \<and> \<not> isProcessing s \<and> \<not> noText (Some t)
      \<and> MAX_TURNS s \<le> dialogTurnCount s"
  proof -
    define s' where "s' = step (now, ASRResult (Some t)) s"
    have eq: "s' = onRecognitionResult t ((emit StopMediaTo s)\<lparr>isListening := False\<rparr>)"
      using pre by (simp add: s'_def onASRResult_words)
    have eff: "effects s' = effects s @ [StopMediaTo, Say closingLine]"
      unfolding eq using pre by simp
    have hs: "True \<in> set (playbackListeners s')" "\<not> terminated s'"
      "pendingProcess s' = pendingProcess s"
      unfolding eq using pre by (simp_all add: onRecognitionResult_def Let_def)
    obtain xs where xs: "effects (onPlaybackFinished s') = effects s' @ xs" "Hangup \<in> set xs"
      using playback_effects [of s'] hs(1) by blast
    have "newEffects s' (step (later, PlaybackFinished) s') = xs"
      using xs(1) hs(2) by (simp add: newEffects_append)
    then show ?thesis
      using xs(2) newEffects_append [OF eff] userTurns_append [OF eff] hs(3)
      unfolding s'_def by simp
  qed
  show ?thesis
    using limit [of m] limit [of 2] closing by (simp add: Let_def)
qed


theorem turn_limit_witness:
  "currentASR afterOnlyTurn \<and> \<not> terminated afterOnlyTurn \<and> \<not> isProcessing afterOnlyTurn
   \<and> \<not> noText (Some [0x434, 0x430]) \<and> MAX_TURNS afterOnlyTurn \<le> dialogTurnCount afterOnlyTurn
   \<and> userTurns afterOnlyTurn = 1
   \<and> newEffects afterOnlyTurn (step (15000, ASRResult (Some [0x434, 0x430])) afterOnlyTurn)
        = [StopMediaTo, Say closingLine]
   \<and> userTurns (step (15000, ASRResult (Some [0x434, 0x430])) afterOnlyTurn) = 1
   \<and> Hangup \<in> set (newEffects (step (15000, ASRResult (Some [0x434, 0x430])) afterOnlyTurn)
        (step (18000, PlaybackFinished) (step (15000, ASRResult (Some [0x434, 0x430])) afterOnlyTurn)))"
proof -
  have w: "\<not> noText (Some [0x434, 0x430])"
    by (simp add: noText_def trim_def isWhiteSpace_def)
  have a: "currentASR afterOnlyTurn" "\<not> terminated afterOnlyTurn" "\<not> isProcessing afterOnlyTurn"
    "MAX_TURNS afterOnlyTurn \<le> dialogTurnCount afterOnlyTurn"
    by (simp_all add: afterOnlyTurn_def handler_defs)
  have u: "userTurns afterOnlyTurn = 1"
    by (simp add: userTurns_def afterOnlyTurn_def handler_defs)
  show ?thesis
    using turn_limit [of afterOnlyTurn "[0x434, 0x430]" 15000 18000 "[]" 1] a u w
    unfolding Let_def by simp
qed

subsection \<open>Failed generation requests\<close>

lemma failed_handleError:
  "failedResponse r \<Longrightarrow> onBackendResponse r s = handleError s"
  by (cases r rule: failedResponse.cases) (simp_all add: onBackendResponse_def)

text \<open>
  Claim C2 says that a transient error (timeout, rate limit, failed request) is
  retried before the apology is spoken. The scenario does not do that: while the
  first reply is awaited, a single response with status 429, or a single rejected
  request, makes it speak the apology line at once and register the hang-up; no
  request is sent again.
\<close>

theorem no_retry_counterexample:
  "\<not> terminated awaitingReply \<and> pendingProcess awaitingReply = 1
   \<and> newEffects awaitingReply
        (step (9800, BackendResponse (HttpResponse 429 Unparsable)) awaitingReply) = [Say apologyLine]
   \<and> playbackListeners
        (step (9800, BackendResponse (HttpResponse 429 Unparsable)) awaitingReply) = [True]
   \<and> \<not> retriedQuietly awaitingReply
        (step (9800, BackendResponse (HttpResponse 429 Unparsable)) awaitingReply)
   \<and> \<not> retriedQuietly awaitingReply (step (19000, BackendResponse RequestError) awaitingReply)"
  by (simp add: retriedQuietly_def newEffects_def awaitingReply_def handler_defs)

text \<open>
  Claim C2 as amended. For every failed generation request (a status other than
  200, a body without a readable \<open>ai_text\<close>, or a rejected request) the scenario
  makes no retry and does not tell transient from fatal errors: on the first
  failure it speaks the fixed apology line (opening the capture if none is open
  and nothing is being processed), sends no further request, and hangs up when
  the playback finishes. It does nothing else: the scenario keeps no status of
  the session that it could mark.
\<close>

theorem error_apology:
  assumes "\<not> terminated s" and "0 < pendingProcess s" and "failedResponse r"
  shows "let s' = step (now, BackendResponse r) s
         in newEffects s s' =
              Say apologyLine # (if currentASR s \<and> \<not> isProcessing s \<and> \<not> isListening s
                                 then [SendMediaTo] else [])
            \<and> \<not> list_ex isProcessText (newEffects s s')
            \<and> pendingProcess s' = pendingProcess s - 1
            \<and> playbackListeners s' = playbackListeners s @ [True]
            \<and> Hangup \<in> set (newEffects s' (step (later, PlaybackFinished) s'))
            \<and> set (newEffects s' (step (later, PlaybackFinished) s')) \<subseteq> {Hangup, SendMediaTo}"
proof -
  define s' where "s' = step (now, BackendResponse r) s"
  have eq: "s' = speak apologyLine True (s\<lparr>pendingProcess := pendingProcess s - 1\<rparr>)"
    using assms by (simp add: s'_def failed_handleError handleError_def)
  have new: "newEffects s s' =
      Say apologyLine # (if currentASR s \<and> \<not> isProcessing s \<and> \<not> isListening s
                         then [SendMediaTo] else [])"
    unfolding eq by (simp add: newEffects_def)
  have st: "pendingProcess s' = pendingProcess s - 1"
    "playbackListeners s' = playbackListeners s @ [True]" "\<not> terminated s'"
    unfolding eq using assms(1) by simp_all
  obtain xs where xs: "effects (onPlaybackFinished s') = effects s' @ xs"
      "Hangup \<in> set xs \<longleftrightarrow> True \<in> set (playbackListeners s')"
      "set xs \<subseteq> {Hangup, SendMediaTo}"
    using playback_effects [of s'] by blast
  have "newEffects s' (step (later, PlaybackFinished) s') = xs"
    using xs(1) st(3) by (simp add: newEffects_append)
  then have "Hangup \<in> set (newEffects s' (step (later, PlaybackFinished) s'))"
      "set (newEffects s' (step (later, PlaybackFinished) s')) \<subseteq> {Hangup, SendMediaTo}"
    using xs(2,3) st(2) by simp_all
  then show ?thesis
    unfolding Let_def s'_def [symmetric] new using st by simp
qed

theorem error_apology_witness:
  "\<not> terminated awaitingReply \<and> 0 < pendingProcess awaitingReply
   \<and> failedResponse (HttpResponse 503 NoAiText)
   \<and> newEffects awaitingReply (step (9800, BackendResponse (HttpResponse 503 NoAiText)) awaitingReply)
        = [Say apologyLine]
   \<and> Hangup \<in> set (newEffects (step (9800, BackendResponse (HttpResponse 503 NoAiText)) awaitingReply)
        (step (15000, PlaybackFinished)
           (step (9800, BackendResponse (HttpResponse 503 NoAiText)) awaitingReply)))"
proof -
  have a: "\<not> terminated awaitingReply" "0 < pendingProcess awaitingReply"
    "isProcessing awaitingReply"
    by (simp_all add: awaitingReply_def handler_defs)
  have f: "failedResponse (HttpResponse 503 NoAiText)" by simp
  show ?thesis
    using error_apology [OF a(1,2) f, of 9800 15000] a f unfolding Let_def by simp
qed

subsection \<open>Time\<close>

lemma step_hangup:
  assumes "Hangup \<in> set (newEffects s (step e s))"
  shows "snd e = PlaybackFinished \<and> True \<in> set (playbackListeners s)"
proof (cases "terminated s")
  case True
  then show ?thesis using assms by (cases e) simp
next
  case live: False
  obtain now ev where e: "e = (now, ev)" by (cases e)
  show ?thesis
  proof (cases ev)
    case (Started cd)
    then show ?thesis using assms live e by (simp add: newEffects_def)
  next
    case CallConnected
    then show ?thesis using assms live e by (simp add: newEffects_def split: if_splits)
  next
    case (GreetingResponse code d)
    then show ?thesis using assms live e by (simp add: newEffects_def split: if_splits)
  next
    case CaptureStarted
    then show ?thesis using assms live e by (simp add: newEffects_def split: if_splits)
  next
    case (ASRResult x)
    show ?thesis
    proof (cases "currentASR s \<and> \<not> isProcessing s")
      case False
      then show ?thesis using assms live e ASRResult by (auto simp: onASRResult_busy split: if_splits)
    next
      case True
      from noText_cases [of x] show ?thesis
      proof
        assume "noText x"
        then have "newEffects s (step e s) = [StopMediaTo, Say repromptLine, SendMediaTo]"
          using True live e ASRResult by (simp add: newEffects_append onASRResult_effects_blank)
        then show ?thesis using assms by simp
      next
        assume "\<exists>t. x = Some t \<and> \<not> noText (Some t)"
        then obtain t where "x = Some t" "\<not> noText (Some t)" by blast
        then have "newEffects s (step e s) =
            [StopMediaTo, if MAX_TURNS s \<le> dialogTurnCount s then Say closingLine
              else ProcessText t (if systemPrompt s = [] then None else Some (systemPrompt s))]"
          using True live e ASRResult
          by (simp add: newEffects_append onASRResult_effects_words)
        then show ?thesis using assms by (simp split: if_splits)
      qed
    qed
  next
    case PlaybackFinished
    obtain xs where xs: "effects (onPlaybackFinished s) = effects s @ xs"
        "Hangup \<in> set xs \<longleftrightarrow> True \<in> set (playbackListeners s)"
      using playback_effects [of s] by blast
    have "newEffects s (step e s) = xs"
      using xs(1) live e PlaybackFinished by (simp add: newEffects_append)
    then show ?thesis using assms xs(2) e PlaybackFinished by simp
  next
    case (BackendResponse r)
    show ?thesis
    proof (cases "pendingProcess s = 0")
      case True
      then show ?thesis using assms live e BackendResponse by simp
    next
      case False
      define s0 where "s0 = s\<lparr>pendingProcess := pendingProcess s - 1\<rparr>"
      obtain t where t: "effects (onBackendResponse r s0) =
          effects s0 @ Say t # (if currentASR s0 \<and> \<not> isProcessing s0 \<and> \<not> isListening s0
                                then [SendMediaTo] else [])"
        using backend_effects [of r s0] by blast
      have st: "step e s = onBackendResponse r s0"
        using False live e BackendResponse by (simp add: s0_def)
      have "newEffects s (step e s) =
          Say t # (if currentASR s \<and> \<not> isProcessing s \<and> \<not> isListening s then [SendMediaTo] else [])"
        unfolding st using t by (simp add: newEffects_def s0_def)
      then show ?thesis using assms by (simp split: if_splits)
    qed
  next
    case CallDisconnected
    then show ?thesis using assms live e by (simp add: newEffects_def split: if_splits)
  next
    case CallFailed
    then show ?thesis using assms live e by (simp add: newEffects_def split: if_splits)
  qed
qed

text \<open>
  Claim C6 says that once the time elapsed since the call was answered reaches
  \<open>maxDurationSeconds\<close> the engine speaks the closing line instead of generating.
  The scenario has no such check. With the documented limit of 120 seconds and a
  call answered at 1000 ms, a user utterance recognised at 500000 ms is sent to the
  backend for a reply like any other.
\<close>

theorem duration_limit_counterexample:
  "\<not> durationLimitRespected 120000 1000
       [(0, Started None), (1000, CallConnected), (1500, GreetingResponse 200 None),
        (6000, PlaybackFinished), (500000, ASRResult (Some [0x434, 0x430]))] scenarioInit"
  by (simp add: newEffects_def handler_defs)

text \<open>
  Claim C6 as amended. The engine has no duration limit. What it does on a
  recognition result does not depend on the time of the event: the check made
  before generation reads the turn counter only, so a result with words that is
  accepted while \<open>dialogTurnCount < MAX_TURNS\<close> is sent to the backend however long
  the call has lasted. A hang-up is issued only by a PlaybackFinished event for
  which a listener with \<open>hangupAfter\<close> is registered, that is after the closing
  (or apology) line was started and at the end of a playback, never by any other
  event.
\<close>

theorem no_duration_check:
  "step (now, ASRResult x) s = step (later, ASRResult x) s
   \<and> (currentASR s \<and> \<not> terminated s \<and> \<not> isProcessing s \<and> \<not> noText (Some t)
        \<and> dialogTurnCount s < MAX_TURNS s \<longrightarrow>
        newEffects s (step (now, ASRResult (Some t)) s) =
          [StopMediaTo, ProcessText t (if systemPrompt s = [] then None else Some (systemPrompt s))])
   \<and> (Hangup \<in> set (newEffects s (step (now, e) s)) \<longrightarrow>
        e = PlaybackFinished \<and> True \<in> set (playbackListeners s))"
proof -
  have "newEffects s (step (now, ASRResult (Some t)) s) =
          [StopMediaTo, ProcessText t (if systemPrompt s = [] then None else Some (systemPrompt s))]"
    if "currentASR s \<and> \<not> terminated s \<and> \<not> isProcessing s \<and> \<not> noText (Some t)
        \<and> dialogTurnCount s < MAX_TURNS s"
    using that by (simp add: newEffects_append onASRResult_effects_words)
  moreover have "step (now, ASRResult x) s = step (later, ASRResult x) s"
    by simp
  ultimately show ?thesis
    using step_hangup [of s "(now, e)"] by simp
qed

theorem no_duration_check_witness:
  "currentASR greetingPlaying \<and> \<not> terminated greetingPlaying \<and> \<not> isProcessing greetingPlaying
   \<and> \<not> noText (Some [0x434, 0x430])
   \<and> dialogTurnCount greetingPlaying < MAX_TURNS greetingPlaying
   \<and> newEffects greetingPlaying (step (86400000, ASRResult (Some [0x434, 0x430])) greetingPlaying)
        = [StopMediaTo, ProcessText [0x434, 0x430] None]
   \<and> Hangup \<in> set (newEffects (speak closingLine True greetingPlaying)
        (step (86400000, PlaybackFinished) (speak closingLine True greetingPlaying)))
   \<and> True \<in> set (playbackListeners (speak closingLine True greetingPlaying))"
proof -
  have g: "currentASR greetingPlaying" "\<not> terminated greetingPlaying"
    "\<not> isProcessing greetingPlaying" "dialogTurnCount greetingPlaying < MAX_TURNS greetingPlaying"
    "systemPrompt greetingPlaying = []"
    by (simp_all add: greetingPlaying_def handler_defs)
  have w: "\<not> noText (Some [0x434, 0x430])"
    by (simp add: noText_def trim_def isWhiteSpace_def)
  obtain xs where xs: "effects (onPlaybackFinished (speak closingLine True greetingPlaying))
        = effects (speak closingLine True greetingPlaying) @ xs"
      "Hangup \<in> set xs \<longleftrightarrow> True \<in> set (playbackListeners (speak closingLine True greetingPlaying))"
    using playback_effects [of "speak closingLine True greetingPlaying"] by blast
  have h: "Hangup \<in> set (newEffects (speak closingLine True greetingPlaying)
        (step (86400000, PlaybackFinished) (speak closingLine True greetingPlaying)))"
    using xs g(2) by (simp add: newEffects_append)
  show ?thesis
    using no_duration_check [of 86400000 "Some [0x434, 0x430]" greetingPlaying 0 "[0x434, 0x430]"
        PlaybackFinished]
      no_duration_check [of 86400000 None "speak closingLine True greetingPlaying" 0 "[]"
        PlaybackFinished] g w h
    by simp
qed

section \<open>Verification of the bridge server\<close>

lemma bridge_fields [simp]:
  "activeCalls (logLine l b) = activeCalls b"
  "sdkCalls (logLine l b) = sdkCalls b"
  "console (logLine l b) = console b @ [l]"
  "activeCalls (sdkDo x b) = activeCalls b"
  "sdkCalls (sdkDo x b) = sdkCalls b @ [x]"
  "console (sdkDo x b) = console b"
  by (simp_all add: logLine_def sdkDo_def)

lemma cleanup_absent:
  "activeCalls b c = None \<Longrightarrow> cleanup c b = logLine (LogCleanup c) b"
  by (simp add: cleanup_def Let_def)

lemma cleanup_removes: "activeCalls (cleanup c b) c = None"
  by (simp add: cleanup_def Let_def split: option.splits)

lemma disconnect_absent:
  "c \<noteq> [] \<Longrightarrow> activeCalls b c = None \<Longrightarrow> disconnect (Some c) b = (b, Reply 404 ErrCallNotFound)"
  by (simp add: disconnect_def)

lemma disconnect_twice:
  assumes "c \<noteq> []"
  shows "disconnect (Some c) (fst (disconnect (Some c) b))
           = (fst (disconnect (Some c) b), Reply 404 ErrCallNotFound)"
proof (cases "activeCalls b c")
  case None
  then show ?thesis using assms by (simp add: disconnect_def)
next
  case (Some d)
  show ?thesis
  proof (cases "call d")
    case True
    then have "fst (disconnect (Some c) b) = cleanup c (sdkDo (CallHangup c) b)"
      using assms Some by (simp add: disconnect_def)
    then show ?thesis using assms by (simp add: disconnect_absent cleanup_removes)
  next
    case False
    then show ?thesis using assms Some by (simp add: disconnect_def)
  qed
qed

text \<open>
  Claim C9 says that an event for a call id that is not in the active registry
  fails with NotFound, and that this failure is logged and ignored, not handed to
  the caller. In the bridge a disconnect request for an unknown call id is
  answered with status 404 and the error "Call not found", and nothing is written
  to the log.
\<close>

theorem unknown_call_counterexample:
  "disconnect (Some ''call_1'') bridgeInit = (bridgeInit, Reply 404 ErrCallNotFound)
   \<and> \<not> loggedAndIgnored bridgeInit (disconnect (Some ''call_1'') bridgeInit)"
  by (simp add: disconnect_def bridgeInit_def loggedAndIgnored_def)

text \<open>
  Claim C9 as amended. A disconnect request whose call id is not in the active
  registry is answered 404 "Call not found" to the one who sent it; it writes no
  log line and changes nothing. The events of the SDK for such an id (call
  disconnected, call failed) are logged and otherwise ignored: registry and SDK
  stay as they are. After any of these events the id is not in the registry, and
  so it is after a disconnect that was answered 200; a second disconnect request
  for the same id is then answered 404 and leaves the state of the bridge
  unchanged.
\<close>

theorem unknown_or_finished_call:
  "(c \<noteq> [] \<and> activeCalls b c = None \<longrightarrow>
      disconnect (Some c) b = (b, Reply 404 ErrCallNotFound))
   \<and> (activeCalls b c = None \<longrightarrow>
        onVoxDisconnected c b = logLine (LogCleanup c) (logLine (LogVoxDisconnected c) b)
        \<and> onVoxFailed c b = logLine (LogCleanup c) (logLine (LogVoxFailed c) b)
        \<and> activeCalls (onVoxDisconnected c b) = activeCalls b
        \<and> sdkCalls (onVoxDisconnected c b) = sdkCalls b
        \<and> activeCalls (onVoxFailed c b) = activeCalls b
        \<and> sdkCalls (onVoxFailed c b) = sdkCalls b)
   \<and> activeCalls (onVoxDisconnected c b) c = None
   \<and> activeCalls (onVoxFailed c b) c = None
   \<and> (snd (disconnect (Some c) b) = Reply 200 (Disconnected c) \<longrightarrow>
        activeCalls (fst (disconnect (Some c) b)) c = None)
   \<and> (c \<noteq> [] \<longrightarrow>
        disconnect (Some c) (fst (disconnect (Some c) b))
          = (fst (disconnect (Some c) b), Reply 404 ErrCallNotFound))"
proof -
  have "activeCalls (fst (disconnect (Some c) b)) c = None"
    if "snd (disconnect (Some c) b) = Reply 200 (Disconnected c)"
    using that by (auto simp: disconnect_def cleanup_removes split: option.splits if_splits)
  then show ?thesis
    using disconnect_twice [of c b]
    by (simp add: disconnect_absent onVoxDisconnected_def onVoxFailed_def cleanup_absent
        cleanup_removes)
qed

theorem unknown_or_finished_call_witness:
  "''call_1'' \<noteq> [] \<and> activeCalls bridgeInit ''call_1'' = None
   \<and> disconnect (Some ''call_1'') bridgeInit = (bridgeInit, Reply 404 ErrCallNotFound)
   \<and> console (onVoxDisconnected ''call_1'' bridgeInit)
        = [LogVoxDisconnected ''call_1'', LogCleanup ''call_1'']
   \<and> snd (disconnect (Some ''call_1'') (fst (connect False (Some ''call_1'') bridgeInit)))
        = Reply 200 (Disconnected ''call_1'')
   \<and> activeCalls (fst (disconnect (Some ''call_1'')
        (fst (connect False (Some ''call_1'') bridgeInit)))) ''call_1'' = None
   \<and> snd (disconnect (Some ''call_1'') (fst (disconnect (Some ''call_1'')
        (fst (connect False (Some ''call_1'') bridgeInit))))) = Reply 404 ErrCallNotFound"
proof -
  define b where "b = fst (connect False (Some ''call_1'') bridgeInit)"
  have ok: "snd (disconnect (Some ''call_1'') b) = Reply 200 (Disconnected ''call_1'')"
    by (simp add: b_def connect_def connectToCall_def disconnect_def bridgeInit_def Let_def)
  have none: "activeCalls bridgeInit ''call_1'' = None"
    by (simp add: bridgeInit_def)
  show ?thesis
    using unknown_or_finished_call [of "''call_1''" bridgeInit]
      unknown_or_finished_call [of "''call_1''" b] ok none
    unfolding b_def [symmetric] by (simp add: bridgeInit_def)
qed

section \<open>Verification of call creation\<close>

lemma ruPhone_matches:
  assumes "ruPhone v"
  shows "phonePattern v"
proof (cases v)
  case Nil
  then show ?thesis using assms by (simp add: ruPhone_def)
next
  case (Cons c w)
  show ?thesis
  proof (cases w)
    case Nil
    then show ?thesis using assms Cons by (simp add: ruPhone_def)
  next
    case (Cons d r)
    then show ?thesis using assms \<open>v = c # w\<close>
      by (auto simp: ruPhone_def tenDigitsToEnd_def)
  qed
qed

lemma line_feed_matches:
  assumes "ruPhone v"
  shows "phonePattern (v @ [CHR 0x0A])"
proof (cases v)
  case Nil
  then show ?thesis using assms by (simp add: ruPhone_def)
next
  case (Cons c w)
  show ?thesis
  proof (cases w)
    case Nil
    then show ?thesis using assms Cons by (simp add: ruPhone_def)
  next
    case (Cons d r)
    then show ?thesis using assms \<open>v = c # w\<close>
      by (auto simp: ruPhone_def tenDigitsToEnd_def)
  qed
qed

text \<open>
  Claim C8 says that \<open>createCall\<close> succeeds for every valid E.164-like phone
  number. The validator admits Russian numbers only: the number +15551230000, in
  E.164 format, is rejected with InvalidArgument.
\<close>

theorem create_call_counterexample:
  "e164_like ''+15551230000'' \<and> createCall ''+15551230000'' managerInit = Inl InvalidArgument"
  by (simp add: createCall_def validate_phone_def isDigit_def)

text \<open>
  Claim C8 as amended. For every phone number made of \<open>+7\<close> or \<open>8\<close> and exactly ten
  digits, \<open>createCall\<close> returns a new session with status Created whose
  identifier was not in the registry before and under which the session is now
  registered (the registry being one whose identifiers all came from the
  counter). For every input the validator rejects, \<open>createCall\<close> fails with
  InvalidArgument; it returns no new registry, so no session is registered.
\<close>

theorem create_call:
  "(ruPhone v \<and> managerInv m \<longrightarrow>
      (\<exists>c m'. createCall v m = Inr (c, m') \<and> status c = Created
         \<and> sessionId c \<notin> dom (registry m)
         \<and> registry m' = (registry m)(sessionId c \<mapsto> c) \<and> managerInv m'))
   \<and> (\<not> phonePattern v \<longrightarrow> createCall v m = Inl InvalidArgument)"
proof -
  have "\<exists>c m'. createCall v m = Inr (c, m') \<and> status c = Created
         \<and> sessionId c \<notin> dom (registry m)
         \<and> registry m' = (registry m)(sessionId c \<mapsto> c) \<and> managerInv m'"
    if "ruPhone v" "managerInv m"
  proof -
    have fresh: "nextId m \<notin> dom (registry m)"
      using that(2) by (auto simp: managerInv_def)
    have "managerInv (m\<lparr>registry := (registry m)(nextId m \<mapsto>
        \<lparr>sessionId = nextId m, phoneNumber = v, status = Created\<rparr>), nextId := Suc (nextId m)\<rparr>)"
      using that(2) by (fastforce simp: managerInv_def less_Suc_eq)
    then show ?thesis
      using fresh ruPhone_matches [OF that(1)]
      by (simp add: createCall_def validate_phone_def Let_def)
  qed
  moreover have "createCall v m = Inl InvalidArgument" if "\<not> phonePattern v"
    using that by (simp add: createCall_def validate_phone_def)
  ultimately show ?thesis by blast
qed

theorem create_call_witness:
  "ruPhone ''+79019433546'' \<and> managerInv managerInit
   \<and> (\<exists>c m'. createCall ''+79019433546'' managerInit = Inr (c, m') \<and> status c = Created
         \<and> sessionId c \<notin> dom (registry managerInit)
         \<and> registry m' = (registry managerInit)(sessionId c \<mapsto> c))
   \<and> \<not> phonePattern ''12345''
   \<and> createCall ''12345'' managerInit = Inl InvalidArgument"
proof -
  have r: "ruPhone ''+79019433546''" by (simp add: ruPhone_def isDigit_def)
  have i: "managerInv managerInit" by (simp add: managerInv_def managerInit_def)
  have n: "\<not> phonePattern ''12345''" by simp
  show ?thesis
    using create_call [of "''+79019433546''" managerInit] create_call [of "''12345''" managerInit]
      r i n by blast
qed

end
